theory Spec2Isabelle
  imports Main
begin

section \<open>Python strings\<close>

text \<open>
  A Python \<^verbatim>\<open>str\<close> is a sequence of Unicode code points; \<^verbatim>\<open>len\<close> counts code points.
  ASCII literals of the source are written with \<open>py\<close>.
\<close>

type_synonym codepoint = nat
type_synonym pystr = "codepoint list"

definition py :: "string \<Rightarrow> pystr" where
  "py s = map of_char s"

definition in_ranges :: "(nat \<times> nat) list \<Rightarrow> codepoint \<Rightarrow> bool" where
  "in_ranges tbl c = list_ex (\<lambda>(lo, hi). lo \<le> c \<and> c \<le> hi) tbl"

text \<open>
  The character tables of the interpreter (CPython 3.11, Unicode 14.0.0), as inclusive
  ranges of code points. \<open>Nd_ranges\<close> is general category Nd (\<^verbatim>\<open>str.isdecimal\<close>, and
  \<^verbatim>\<open>\d\<close> of \<^verbatim>\<open>re\<close> on a \<^verbatim>\<open>str\<close> pattern); every range starts at a digit zero and
  the digits follow in order, so the value of \<open>c\<close> in \<open>(lo, hi)\<close> is \<open>(c - lo) mod 10\<close>.
  \<open>digit_only_ranges\<close> are the characters of Numeric_Type=Digit that are not decimal
  (superscripts, circled digits, ...): \<^verbatim>\<open>str.isdigit\<close> accepts both tables.
  \<open>space_ranges\<close> is \<^verbatim>\<open>str.isspace\<close>, the characters \<^verbatim>\<open>str.strip()\<close> removes.
\<close>

definition Nd_ranges :: "(nat \<times> nat) list" where
  "Nd_ranges =
    [(48, 57), (1632, 1641), (1776, 1785), (1984, 1993), (2406, 2415), (2534, 2543),
     (2662, 2671), (2790, 2799), (2918, 2927), (3046, 3055), (3174, 3183), (3302, 3311),
     (3430, 3439), (3558, 3567), (3664, 3673), (3792, 3801), (3872, 3881), (4160, 4169),
     (4240, 4249), (6112, 6121), (6160, 6169), (6470, 6479), (6608, 6617), (6784, 6793),
     (6800, 6809), (6992, 7001), (7088, 7097), (7232, 7241), (7248, 7257), (42528, 42537),
     (43216, 43225), (43264, 43273), (43472, 43481), (43504, 43513), (43600, 43609),
     (44016, 44025), (65296, 65305), (66720, 66729), (68912, 68921), (69734, 69743),
     (69872, 69881), (69942, 69951), (70096, 70105), (70384, 70393), (70736, 70745),
     (70864, 70873), (71248, 71257), (71360, 71369), (71472, 71481), (71904, 71913),
     (72016, 72025), (72784, 72793), (73040, 73049), (73120, 73129), (92768, 92777),
     (92864, 92873), (93008, 93017), (120782, 120831), (123200, 123209), (123632, 123641),
     (125264, 125273), (130032, 130041)]"

definition digit_only_ranges :: "(nat \<times> nat) list" where
  "digit_only_ranges =
    [(178, 179), (185, 185), (4969, 4977), (6618, 6618), (8304, 8304), (8308, 8313),
     (8320, 8329), (9312, 9320), (9332, 9340), (9352, 9360), (9450, 9450), (9461, 9469),
     (9471, 9471), (10102, 10110), (10112, 10120), (10122, 10130), (68160, 68163),
     (69216, 69224), (69714, 69722), (127232, 127242)]"

definition space_ranges :: "(nat \<times> nat) list" where
  "space_ranges =
    [(9, 13), (28, 32), (133, 133), (160, 160), (5760, 5760), (8192, 8202), (8232, 8233),
     (8239, 8239), (8287, 8287), (12288, 12288)]"

definition isdecimal_cp :: "codepoint \<Rightarrow> bool" where
  "isdecimal_cp c = in_ranges Nd_ranges c"

definition isdigit_cp :: "codepoint \<Rightarrow> bool" where
  "isdigit_cp c = (in_ranges Nd_ranges c \<or> in_ranges digit_only_ranges c)"

definition isspace_cp :: "codepoint \<Rightarrow> bool" where
  "isspace_cp c = in_ranges space_ranges c"

definition ascii_digit :: "codepoint \<Rightarrow> bool" where
  "ascii_digit c = (48 \<le> c \<and> c \<le> 57)"

text \<open>\<^verbatim>\<open>str.isdigit()\<close>: false on the empty string, else every character is a digit.\<close>

definition isdigit :: "pystr \<Rightarrow> bool" where
  "isdigit s = (s \<noteq> [] \<and> list_all isdigit_cp s)"

text \<open>\<^verbatim>\<open>str.strip()\<close> without argument: whitespace removed at both ends.\<close>

definition strip :: "pystr \<Rightarrow> pystr" where
  "strip s = rev (dropWhile isspace_cp (rev (dropWhile isspace_cp s)))"

text \<open>Truth value of a \<^verbatim>\<open>str\<close>: the empty string is false.\<close>

definition truthy_str :: "pystr \<Rightarrow> bool" where
  "truthy_str s = (s \<noteq> [])"

section \<open>Errors\<close>

text \<open>The exceptions the core raises, with their messages.\<close>

datatype error = ValueError pystr | NameError pystr

section \<open>Field validators\<close>

text \<open>
  \<^verbatim>\<open>Field.__init__\<close> stores the raw value; each subclass then calls its own
  \<^verbatim>\<open>is_valid\<close> and raises \<^verbatim>\<open>ValueError\<close> when it is false.
  \<^verbatim>\<open>Field.__str__\<close> is \<^verbatim>\<open>str(self.value)\<close>.
\<close>

datatype Name = NameObj (name_value: pystr)

datatype Phone = PhoneObj (phone_value: pystr)

definition Name_is_valid :: "pystr \<Rightarrow> pystr" where
  "Name_is_valid v = strip v"

definition Name_init :: "pystr \<Rightarrow> error + Name" where
  "Name_init nm =
     (if \<not> truthy_str (Name_is_valid nm)
      then Inl (ValueError (py ''Invalid name format. Name must not be empty.''))
      else Inr (NameObj nm))"

definition Phone_is_valid :: "pystr \<Rightarrow> bool" where
  "Phone_is_valid v = (length v = 10 \<and> isdigit v)"

definition Phone_init :: "pystr \<Rightarrow> error + Phone" where
  "Phone_init ph =
     (if \<not> Phone_is_valid ph
      then Inl (ValueError (py ''Invalid phone  format. Phone must be 10 digits.''))
      else Inr (PhoneObj ph))"

definition Name_str :: "Name \<Rightarrow> pystr" where
  "Name_str n = name_value n"

definition Phone_str :: "Phone \<Rightarrow> pystr" where
  "Phone_str p = phone_value p"

section \<open>Calendar dates\<close>

text \<open>
  \<^verbatim>\<open>datetime.date\<close> of the standard library: the proleptic Gregorian calendar with
  years 1 to 9999. The helpers are those of \<^verbatim>\<open>datetime.py\<close>; Python's \<^verbatim>\<open>//\<close> and
  \<^verbatim>\<open>%\<close> round towards minus infinity, as \<open>div\<close> and \<open>mod\<close> on \<open>int\<close> do.
\<close>

record date =
  year :: int
  month :: int
  day :: int

definition DAYS_IN_MONTH :: "int list" where
  "DAYS_IN_MONTH = [-1, 31, 28, 31, 30, 31, 30, 31, 31, 30, 31, 30, 31]"

definition DAYS_BEFORE_MONTH :: "int list" where
  "DAYS_BEFORE_MONTH = [-1, 0, 31, 59, 90, 120, 151, 181, 212, 243, 273, 304, 334]"

definition is_leap :: "int \<Rightarrow> bool" where
  "is_leap y = (y mod 4 = 0 \<and> (y mod 100 \<noteq> 0 \<or> y mod 400 = 0))"

definition days_before_year :: "int \<Rightarrow> int" where
  "days_before_year yr = (let y = yr - 1 in y * 365 + y div 4 - y div 100 + y div 400)"

text \<open>Both are called with \<open>1 \<le> m \<le> 12\<close> only (an assertion in the library).\<close>

definition days_in_month :: "int \<Rightarrow> int \<Rightarrow> int" where
  "days_in_month y m = (if m = 2 \<and> is_leap y then 29 else DAYS_IN_MONTH ! nat m)"

definition days_before_month :: "int \<Rightarrow> int \<Rightarrow> int" where
  "days_before_month y m = DAYS_BEFORE_MONTH ! nat m + (if m > 2 \<and> is_leap y then 1 else 0)"

definition ymd2ord :: "int \<Rightarrow> int \<Rightarrow> int \<Rightarrow> int" where
  "ymd2ord y m d = days_before_year y + days_before_month y m + d"

text \<open>Decimal rendering of a natural number, and zero padding on the left.\<close>

fun str_nat :: "nat \<Rightarrow> pystr" where
  "str_nat n = (if n < 10 then [48 + n] else str_nat (n div 10) @ [48 + n mod 10])"

declare str_nat.simps [simp del]

definition str_int :: "int \<Rightarrow> pystr" where
  "str_int i = (if i < 0 then of_char CHR ''-'' # str_nat (nat (- i)) else str_nat (nat i))"

definition zero_pad :: "nat \<Rightarrow> pystr \<Rightarrow> pystr" where
  "zero_pad w s = replicate (w - length s) (of_char CHR ''0'') @ s"

text \<open>
  The constructor \<^verbatim>\<open>date(year, month, day)\<close> checks its fields and raises
  \<^verbatim>\<open>ValueError\<close>.
\<close>

definition date_new :: "int \<Rightarrow> int \<Rightarrow> int \<Rightarrow> error + date" where
  "date_new y m d =
     (if \<not> (1 \<le> y \<and> y \<le> 9999)
      then Inl (ValueError (py ''year '' @ str_int y @ py '' is out of range''))
      else if \<not> (1 \<le> m \<and> m \<le> 12) then Inl (ValueError (py ''month must be in 1..12''))
      else if \<not> (1 \<le> d \<and> d \<le> days_in_month y m)
      then Inl (ValueError (py ''day is out of range for month''))
      else Inr \<lparr>year = y, month = m, day = d\<rparr>)"

text \<open>\<^verbatim>\<open>d.replace(year=y)\<close> builds a new date, so it raises when that date does not exist.\<close>

definition date_replace_year :: "date \<Rightarrow> int \<Rightarrow> error + date" where
  "date_replace_year d y = date_new y (month d) (day d)"

definition toordinal :: "date \<Rightarrow> int" where
  "toordinal d = ymd2ord (year d) (month d) (day d)"

text \<open>\<^verbatim>\<open>(a - b).days\<close> for two dates.\<close>

definition date_sub_days :: "date \<Rightarrow> date \<Rightarrow> int" where
  "date_sub_days a b = toordinal a - toordinal b"

definition weekday :: "date \<Rightarrow> int" where
  "weekday d = (toordinal d + 6) mod 7"

subsection \<open>Rendering\<close>

text \<open>
  \<^verbatim>\<open>strftime\<close> hands the format to the C library. \<^verbatim>\<open>%d\<close> and \<^verbatim>\<open>%m\<close> are two digits,
  zero padded. \<^verbatim>\<open>%Y\<close> is the year in decimal; whether a year below 1000 is padded to
  four digits depends on the C library (glibc does not pad), so that choice is the
  parameter \<open>pad_year\<close>. \<^verbatim>\<open>%A\<close> is the weekday's name in the C locale, which the program
  never changes.
\<close>

definition fmt_d :: "date \<Rightarrow> pystr" where
  "fmt_d d = zero_pad 2 (str_int (day d))"

definition fmt_m :: "date \<Rightarrow> pystr" where
  "fmt_m d = zero_pad 2 (str_int (month d))"

definition fmt_Y :: "bool \<Rightarrow> date \<Rightarrow> pystr" where
  "fmt_Y pad_year d = (if pad_year then zero_pad 4 (str_int (year d)) else str_int (year d))"

definition day_names :: "pystr list" where
  "day_names = map py [''Monday'', ''Tuesday'', ''Wednesday'', ''Thursday'', ''Friday'',
     ''Saturday'', ''Sunday'']"

definition fmt_A :: "date \<Rightarrow> pystr" where
  "fmt_A d = day_names ! nat (weekday d)"

definition strftime_dmY :: "bool \<Rightarrow> date \<Rightarrow> pystr" where
  "strftime_dmY pad_year d = fmt_d d @ py ''.'' @ fmt_m d @ py ''.'' @ fmt_Y pad_year d"

definition strftime_A_dmY :: "bool \<Rightarrow> date \<Rightarrow> pystr" where
  "strftime_A_dmY pad_year d = fmt_A d @ py '', '' @ strftime_dmY pad_year d"

subsection \<open>Parsing\<close>

text \<open>
  \<^verbatim>\<open>datetime.strptime(value, "%d.%m.%Y")\<close> compiles the format to the regular expression
  \<^verbatim>\<open>(?P<d>3[0-1]|[1-2]\d|0[1-9]|[1-9]| [1-9])\.(?P<m>1[0-2]|0[1-9]|[1-9])\.(?P<Y>\d\d\d\d)\<close>
  and matches it at the start of the string, with backtracking; \<^verbatim>\<open>\d\<close> is any
  decimal digit of Unicode, and the flag \<^verbatim>\<open>IGNORECASE\<close> changes nothing, the pattern
  having no letters. A matcher maps a string
  to the remainders left by each way of matching a prefix, in the order the
  backtracking engine tries them; the match found is the first.
\<close>

type_synonym matcher = "pystr \<Rightarrow> pystr list"

definition chr_m :: "(codepoint \<Rightarrow> bool) \<Rightarrow> matcher" where
  "chr_m P s = (case s of [] \<Rightarrow> [] | c # r \<Rightarrow> if P c then [r] else [])"

definition lit :: "char \<Rightarrow> matcher" where
  "lit ch = chr_m (\<lambda>c. c = of_char ch)"

definition cls :: "char \<Rightarrow> char \<Rightarrow> matcher" where
  "cls lo hi = chr_m (\<lambda>c. of_char lo \<le> c \<and> c \<le> of_char hi)"

definition dig :: matcher where
  "dig = chr_m isdecimal_cp"

definition seq_m :: "matcher \<Rightarrow> matcher \<Rightarrow> matcher" where
  "seq_m a b s = concat (map b (a s))"

definition alt_m :: "matcher \<Rightarrow> matcher \<Rightarrow> matcher" where
  "alt_m a b s = a s @ b s"

text \<open>A named group: the text it captured, with the remainder.\<close>

definition group_m :: "matcher \<Rightarrow> pystr \<Rightarrow> (pystr \<times> pystr) list" where
  "group_m a s = map (\<lambda>r. (take (length s - length r) s, r)) (a s)"

definition re_d :: matcher where
  "re_d = alt_m (seq_m (lit CHR ''3'') (cls CHR ''0'' CHR ''1''))
         (alt_m (seq_m (cls CHR ''1'' CHR ''2'') dig)
         (alt_m (seq_m (lit CHR ''0'') (cls CHR ''1'' CHR ''9''))
         (alt_m (cls CHR ''1'' CHR ''9'')
                (seq_m (lit CHR '' '') (cls CHR ''1'' CHR ''9'')))))"

definition re_m :: matcher where
  "re_m = alt_m (seq_m (lit CHR ''1'') (cls CHR ''0'' CHR ''2''))
         (alt_m (seq_m (lit CHR ''0'') (cls CHR ''1'' CHR ''9''))
                (cls CHR ''1'' CHR ''9''))"

definition re_Y :: matcher where
  "re_Y = seq_m dig (seq_m dig (seq_m dig dig))"

text \<open>The groups \<open>d\<close>, \<open>m\<close>, \<open>Y\<close> of each match and what follows the match.\<close>

definition format_regex_matches :: "pystr \<Rightarrow> (pystr \<times> pystr \<times> pystr \<times> pystr) list" where
  "format_regex_matches s =
     [(d, m, y, r5). (d, r1) \<leftarrow> group_m re_d s, r2 \<leftarrow> lit CHR ''.'' r1,
                     (m, r3) \<leftarrow> group_m re_m r2, r4 \<leftarrow> lit CHR ''.'' r3,
                     (y, r5) \<leftarrow> group_m re_Y r4]"

text \<open>
  \<^verbatim>\<open>int(tok)\<close> on the text of a group: surrounding whitespace is dropped and the
  decimal digits (of any script) are read in base ten. The signs and underscores that
  \<^verbatim>\<open>int\<close> also reads cannot occur in a group and are left out: \<open>None\<close> there.
\<close>

definition decimal_value :: "codepoint \<Rightarrow> nat option" where
  "decimal_value c =
     (case find (\<lambda>(lo, hi). lo \<le> c \<and> c \<le> hi) Nd_ranges of
        None \<Rightarrow> None
      | Some (lo, hi) \<Rightarrow> Some ((c - lo) mod 10))"

fun digits_value :: "nat \<Rightarrow> pystr \<Rightarrow> nat option" where
  "digits_value acc [] = Some acc"
| "digits_value acc (c # cs) =
     (case decimal_value c of None \<Rightarrow> None | Some v \<Rightarrow> digits_value (10 * acc + v) cs)"

definition int_of_token :: "pystr \<Rightarrow> int option" where
  "int_of_token tok =
     (case strip tok of [] \<Rightarrow> None | t \<Rightarrow> map_option int (digits_value 0 t))"

text \<open>
  \<^verbatim>\<open>strptime\<close> raises \<^verbatim>\<open>ValueError\<close> when the string does not match, when text
  remains after the match, and when the fields are not a date; the only caller catches
  it without looking at the message, so the result is an option: \<open>None\<close> is the
  exception. \<^verbatim>\<open>.date()\<close> keeps year, month and day.
\<close>

definition strptime_dmY :: "pystr \<Rightarrow> date option" where
  "strptime_dmY s =
     (case format_regex_matches s of
        [] \<Rightarrow> None
      | (d, m, y, rest) # _ \<Rightarrow>
          if rest \<noteq> [] then None
          else (case (int_of_token y, int_of_token m, int_of_token d) of
                  (Some yy, Some mm, Some dd) \<Rightarrow>
                     (case date_new yy mm dd of Inl _ \<Rightarrow> None | Inr dt \<Rightarrow> Some dt)
                | _ \<Rightarrow> None))"

datatype Birthday = BirthdayObj (birthday_value: date)

text \<open>
  \<^verbatim>\<open>Birthday.is_valid\<close> stores the parsed date in \<^verbatim>\<open>self.value\<close> and returns
  \<^verbatim>\<open>True\<close>, or returns \<^verbatim>\<open>False\<close> on \<^verbatim>\<open>ValueError\<close>: \<open>Some\<close> of the stored date, or
  \<open>None\<close>.
\<close>

definition Birthday_is_valid :: "pystr \<Rightarrow> date option" where
  "Birthday_is_valid v = strptime_dmY v"

definition Birthday_init :: "pystr \<Rightarrow> error + Birthday" where
  "Birthday_init v =
     (case Birthday_is_valid v of
        None \<Rightarrow> Inl (ValueError (py ''Invalid date format. Use DD.MM.YYYY''))
      | Some d \<Rightarrow> Inr (BirthdayObj d))"

section \<open>Record\<close>

record Record =
  name :: Name
  phones :: "Phone list"
  birthday :: "Birthday option"

text \<open>
  A method that mutates the record returns its outcome together with the record as the
  call leaves it: \<open>Inl\<close> is the exception raised, with the record as it is at the raise.
\<close>

definition Record_init :: "pystr \<Rightarrow> error + Record" where
  "Record_init nm =
     (case Name_init nm of
        Inl e \<Rightarrow> Inl e
      | Inr n \<Rightarrow> Inr \<lparr>name = n, phones = [], birthday = None\<rparr>)"

definition add_phone :: "pystr \<Rightarrow> Record \<Rightarrow> (error + unit) \<times> Record" where
  "add_phone ph r =
     (case Phone_init ph of
        Inl e \<Rightarrow> (Inl e, r)
      | Inr p \<Rightarrow> (Inr (), r\<lparr>phones := phones r @ [p]\<rparr>))"

definition remove_phone :: "pystr \<Rightarrow> Record \<Rightarrow> Record" where
  "remove_phone ph r = r\<lparr>phones := filter (\<lambda>p. phone_value p \<noteq> ph) (phones r)\<rparr>"

text \<open>
  The loop of \<^verbatim>\<open>edit_phone\<close> over \<^verbatim>\<open>enumerate(self.phones)\<close>, from index \<open>i\<close>: the
  new phone is validated only once an entry equal to \<open>old_phone\<close> is found.
\<close>

function edit_phone_loop :: "nat \<Rightarrow> pystr \<Rightarrow> pystr \<Rightarrow> Record \<Rightarrow> (error + unit) \<times> Record" where
  "edit_phone_loop i old_phone new_phone r =
     (if i < length (phones r) then
        (if phone_value (phones r ! i) = old_phone then
           (case Phone_init new_phone of
              Inl e \<Rightarrow> (Inl e, r)
            | Inr p \<Rightarrow> (Inr (), r\<lparr>phones := (phones r)[i := p]\<rparr>))
         else edit_phone_loop (i + 1) old_phone new_phone r)
      else (Inl (ValueError (py ''Phone not found'')), r))"
  by pat_completeness auto
termination
  by (relation "measure (\<lambda>(i, old_phone, new_phone, r). length (phones r) - i)") auto

declare edit_phone_loop.simps [simp del]

definition edit_phone :: "pystr \<Rightarrow> pystr \<Rightarrow> Record \<Rightarrow> (error + unit) \<times> Record" where
  "edit_phone old_phone new_phone r = edit_phone_loop 0 old_phone new_phone r"

fun find_phone_loop :: "Phone list \<Rightarrow> pystr \<Rightarrow> Phone option" where
  "find_phone_loop [] ph = None"
| "find_phone_loop (p # ps) ph = (if phone_value p = ph then Some p else find_phone_loop ps ph)"

definition find_phone :: "pystr \<Rightarrow> Record \<Rightarrow> Phone option" where
  "find_phone ph r = find_phone_loop (phones r) ph"

text \<open>
  \<^verbatim>\<open>add_birthday\<close> builds the \<^verbatim>\<open>Birthday\<close> first, then looks at the stored one
  (an object, hence true whenever it is not \<^verbatim>\<open>None\<close>).
\<close>

definition add_birthday :: "pystr \<Rightarrow> Record \<Rightarrow> (error + pystr) \<times> Record" where
  "add_birthday bdate r =
     (case Birthday_init bdate of
        Inl e \<Rightarrow> (Inl e, r)
      | Inr b \<Rightarrow>
          (if birthday r = None then (Inr (py ''Birthday added.''), r\<lparr>birthday := Some b\<rparr>)
           else (Inr (py ''Already have''), r)))"

fun join :: "pystr \<Rightarrow> pystr list \<Rightarrow> pystr" where
  "join sep [] = []"
| "join sep [x] = x"
| "join sep (x # y # zs) = x @ sep @ join sep (y # zs)"

definition Record_str :: "bool \<Rightarrow> Record \<Rightarrow> pystr" where
  "Record_str pad_year r =
     (let formatted_date =
            (case birthday r of
               Some b \<Rightarrow> strftime_dmY pad_year (birthday_value b)
             | None \<Rightarrow> py ''N/A'')
      in py ''Contact name: '' @ name_value (name r) @ py '', phones: ''
         @ join (py ''; '') (map phone_value (phones r)) @ py '', birthday: ''
         @ formatted_date)"

section \<open>AddressBook\<close>

text \<open>
  The book is a \<^verbatim>\<open>UserDict\<close>: its \<^verbatim>\<open>data\<close> is a dictionary from the name's text to
  the record, kept here as the list of its items in insertion order. Assigning to a
  key that is present replaces the value where it stands; a new key goes to the end.
\<close>

type_synonym AddressBook = "(pystr \<times> Record) list"

fun dict_setitem :: "pystr \<Rightarrow> Record \<Rightarrow> AddressBook \<Rightarrow> AddressBook" where
  "dict_setitem k v [] = [(k, v)]"
| "dict_setitem k v ((k', v') # kvs) =
     (if k' = k then (k, v) # kvs else (k', v') # dict_setitem k v kvs)"

fun dict_get :: "AddressBook \<Rightarrow> pystr \<Rightarrow> Record option" where
  "dict_get [] k = None"
| "dict_get ((k', v') # kvs) k = (if k' = k then Some v' else dict_get kvs k)"

text \<open>\<^verbatim>\<open>data.pop(k, None)\<close>: the value removed, or \<open>None\<close>, and the dictionary left.\<close>

definition dict_pop :: "pystr \<Rightarrow> AddressBook \<Rightarrow> Record option \<times> AddressBook" where
  "dict_pop k kvs = (dict_get kvs k, filter (\<lambda>(k', v'). k' \<noteq> k) kvs)"

definition add_record :: "Record \<Rightarrow> AddressBook \<Rightarrow> AddressBook" where
  "add_record r book = dict_setitem (name_value (name r)) r book"

definition find_record :: "pystr \<Rightarrow> AddressBook \<Rightarrow> Record option" where
  "find_record nm book = dict_get book nm"

text \<open>
  \<^verbatim>\<open>delete\<close> raises when the popped value is false; a \<^verbatim>\<open>Record\<close> defines neither
  \<^verbatim>\<open>__bool__\<close> nor \<^verbatim>\<open>__len__\<close>, so only the default \<^verbatim>\<open>None\<close> is.
\<close>

definition delete :: "pystr \<Rightarrow> AddressBook \<Rightarrow> (error + unit) \<times> AddressBook" where
  "delete nm book =
     (case dict_pop nm book of
        (None, book') \<Rightarrow> (Inl (NameError (py ''Contact not found'')), book')
      | (Some r, book') \<Rightarrow> (Inr (), book'))"

text \<open>
  \<^verbatim>\<open>get_upcoming_birthdays\<close>: the loop over \<^verbatim>\<open>self.values()\<close> with the list built so
  far. The date \<open>tdate\<close> is what \<^verbatim>\<open>datetime.today().date()\<close> returned, an input of the
  model. An entry \<^verbatim>\<open>{'name': n, 'birthday': s}\<close> of the result is the pair \<open>(n, s)\<close>.
\<close>

fun upcoming_loop :: "bool \<Rightarrow> date \<Rightarrow> Record list \<Rightarrow> (pystr \<times> pystr) list
    \<Rightarrow> error + (pystr \<times> pystr) list" where
  "upcoming_loop pad_year tdate [] birthdays = Inr birthdays"
| "upcoming_loop pad_year tdate (r # rest) birthdays =
     (case birthday r of
        None \<Rightarrow> upcoming_loop pad_year tdate rest birthdays
      | Some bdate \<Rightarrow>
          (case date_replace_year (birthday_value bdate) (year tdate) of
             Inl e \<Rightarrow> Inl e
           | Inr bdate_this_year \<Rightarrow>
               (let days_between = date_sub_days bdate_this_year tdate in
                if 0 \<le> days_between \<and> days_between \<le> 7
                then upcoming_loop pad_year tdate rest
                       (birthdays @ [(name_value (name r), strftime_A_dmY pad_year bdate_this_year)])
                else upcoming_loop pad_year tdate rest birthdays)))"

definition get_upcoming_birthdays :: "bool \<Rightarrow> date \<Rightarrow> AddressBook
    \<Rightarrow> error + (pystr \<times> pystr) list" where
  "get_upcoming_birthdays pad_year tdate book = upcoming_loop pad_year tdate (map snd book) []"

definition AddressBook_str :: "bool \<Rightarrow> AddressBook \<Rightarrow> pystr" where
  "AddressBook_str pad_year book =
     strip (concat (map (\<lambda>r. Record_str pad_year r @ py [CHR 0x0A]) (map snd book)))"

section \<open>Sequences of calls\<close>

text \<open>
  The index of the first phone whose value is \<open>v\<close> (the length of the list when there is
  none), for stating what \<^verbatim>\<open>edit_phone\<close> replaces.
\<close>

definition first_index :: "pystr \<Rightarrow> Phone list \<Rightarrow> nat" where
  "first_index v ps = length (takeWhile (\<lambda>p. phone_value p \<noteq> v) ps)"

text \<open>
  The calls the command layer makes on a \<^verbatim>\<open>Record\<close>, and the record each leaves,
  whether it returned or raised. \<^verbatim>\<open>find_phone\<close> and \<^verbatim>\<open>__str__\<close> assign nothing.
\<close>

datatype record_op =
    AddPhone pystr
  | RemovePhone pystr
  | EditPhone pystr pystr
  | FindPhone pystr
  | AddBirthday pystr
  | Render

fun apply_op :: "record_op \<Rightarrow> Record \<Rightarrow> Record" where
  "apply_op (AddPhone ph) r = snd (add_phone ph r)"
| "apply_op (RemovePhone ph) r = remove_phone ph r"
| "apply_op (EditPhone old_phone new_phone) r = snd (edit_phone old_phone new_phone r)"
| "apply_op (FindPhone ph) r = r"
| "apply_op (AddBirthday bdate) r = snd (add_birthday bdate r)"
| "apply_op Render r = r"

definition run_ops :: "record_op list \<Rightarrow> Record \<Rightarrow> Record" where
  "run_ops ops r = foldl (\<lambda>r' op. apply_op op r') r ops"

text \<open>
  The books the core operations build from the empty one. A record that \<^verbatim>\<open>find\<close>
  returned is the object the dictionary holds, so a call on it changes the entry under
  its key.
\<close>

inductive reachable :: "AddressBook \<Rightarrow> bool" where
  empty: "reachable []"
| add: "reachable book \<Longrightarrow> reachable (add_record r book)"
| del: "reachable book \<Longrightarrow> reachable (snd (delete nm book))"
| mut: "reachable book \<Longrightarrow> find_record nm book = Some r
        \<Longrightarrow> reachable (dict_setitem nm (apply_op op r) book)"

text \<open>The invariant of a book: keys are distinct, and each key is the name of its record.\<close>

definition book_inv :: "AddressBook \<Rightarrow> bool" where
  "book_inv book = (distinct (map fst book) \<and> list_all (\<lambda>(k, v). k = name_value (name v)) book)"

section \<open>Date strings\<close>

text \<open>
  The texts the three groups of the pattern can capture: a day is one digit 1-9, or two
  characters (30 or 31; 1 or 2 and a decimal digit of any script; 0 and a digit 1-9; a
  space and a digit 1-9); a month is one digit 1-9, or 10 to 12, or 0 and a digit 1-9;
  a year is four decimal digits of any script.
\<close>

fun day_field :: "pystr \<Rightarrow> bool" where
  "day_field [a] = (49 \<le> a \<and> a \<le> 57)"
| "day_field [a, b] =
     ((a = 51 \<and> 48 \<le> b \<and> b \<le> 49) \<or> (49 \<le> a \<and> a \<le> 50 \<and> isdecimal_cp b)
      \<or> (a = 48 \<and> 49 \<le> b \<and> b \<le> 57) \<or> (a = 32 \<and> 49 \<le> b \<and> b \<le> 57))"
| "day_field t = False"

fun month_field :: "pystr \<Rightarrow> bool" where
  "month_field [a] = (49 \<le> a \<and> a \<le> 57)"
| "month_field [a, b] =
     ((a = 49 \<and> 48 \<le> b \<and> b \<le> 50) \<or> (a = 48 \<and> 49 \<le> b \<and> b \<le> 57))"
| "month_field t = False"

definition year_field :: "pystr \<Rightarrow> bool" where
  "year_field t = (length t = 4 \<and> list_all isdecimal_cp t)"

text \<open>
  The format in the words of the specification, for comparison with the parser: ten
  characters, two ASCII digits for the day, two for the month and four for the year,
  with a full stop after day and month, that name a date of the calendar (years 1 to
  9999, the range of \<^verbatim>\<open>datetime.date\<close>).
\<close>

definition ascii_number :: "pystr \<Rightarrow> int" where
  "ascii_number t = foldl (\<lambda>a c. 10 * a + (int c - 48)) 0 t"

definition real_date :: "int \<Rightarrow> int \<Rightarrow> int \<Rightarrow> bool" where
  "real_date y m d = (1 \<le> y \<and> y \<le> 9999 \<and> 1 \<le> m \<and> m \<le> 12 \<and> 1 \<le> d \<and> d \<le> days_in_month y m)"

definition canonical_date :: "pystr \<Rightarrow> date" where
  "canonical_date s =
     \<lparr>year = ascii_number (drop 6 s), month = ascii_number (take 2 (drop 3 s)),
      day = ascii_number (take 2 s)\<rparr>"

definition canonical_date_string :: "pystr \<Rightarrow> bool" where
  "canonical_date_string s =
     (length s = 10 \<and> s ! 2 = 46 \<and> s ! 5 = 46
      \<and> list_all ascii_digit (take 2 s @ take 2 (drop 3 s) @ drop 6 s)
      \<and> real_date (year (canonical_date s)) (month (canonical_date s)) (day (canonical_date s)))"

text \<open>
  The window of the specification: the birthday moved into the year of \<open>tdate\<close>, when
  that date exists, lies zero to seven days after \<open>tdate\<close>.
\<close>

definition this_year_birthday :: "date \<Rightarrow> Record \<Rightarrow> date option" where
  "this_year_birthday tdate r =
     (case birthday r of
        None \<Rightarrow> None
      | Some b \<Rightarrow>
          (case date_replace_year (birthday_value b) (year tdate) of
             Inl e \<Rightarrow> None
           | Inr d \<Rightarrow> Some d))"

definition in_window :: "date \<Rightarrow> Record \<Rightarrow> bool" where
  "in_window tdate r =
     (case this_year_birthday tdate r of
        None \<Rightarrow> False
      | Some d \<Rightarrow> 0 \<le> date_sub_days d tdate \<and> date_sub_days d tdate \<le> 7)"

section \<open>Basic facts\<close>

lemma py_simps [simp]: "py [] = []" "py (c # cs) = of_char c # py cs"
  by (simp_all add: py_def)

lemmas char_tables = isspace_cp_def isdigit_cp_def isdecimal_cp_def in_ranges_def
  Nd_ranges_def digit_only_ranges_def space_ranges_def

lemmas strptime_eval = strptime_dmY_def format_regex_matches_def group_m_def re_d_def re_m_def
  re_Y_def alt_m_def seq_m_def lit_def cls_def dig_def chr_m_def int_of_token_def strip_def
  decimal_value_def date_new_def days_in_month_def is_leap_def DAYS_IN_MONTH_def char_tables

lemmas date_eval = date_replace_year_def date_new_def days_in_month_def is_leap_def
  DAYS_IN_MONTH_def DAYS_BEFORE_MONTH_def date_sub_days_def toordinal_def ymd2ord_def
  days_before_year_def days_before_month_def

lemma strip_Nil_iff: "(strip s = []) = list_all isspace_cp s"
proof
  assume "strip s = []"
  then have a: "dropWhile isspace_cp (rev (dropWhile isspace_cp s)) = []"
    by (simp add: strip_def)
  show "list_all isspace_cp s"
  proof (cases "dropWhile isspace_cp s")
    case Nil
    then show ?thesis by (simp add: list_all_iff)
  next
    case (Cons x xs)
    then have "\<not> isspace_cp x" using hd_dropWhile [of isspace_cp s] by auto
    moreover from a Cons have "isspace_cp x" by auto
    ultimately show ?thesis by simp
  qed
next
  assume "list_all isspace_cp s"
  then show "strip s = []" by (auto simp: strip_def list_all_iff dest: set_dropWhileD)
qed

lemma ascii_digit_isdigit_cp: "ascii_digit c \<Longrightarrow> isdigit_cp c"
  by (simp add: ascii_digit_def isdigit_cp_def in_ranges_def Nd_ranges_def)

section \<open>Name\<close>

text \<open>
  Claim C6, as the spec states it, also says that a constructed Name carries no
  surrounding whitespace. The constructor tests the stripped text but stores the text
  it was given: \<^verbatim>\<open>Name(" Bob")\<close> succeeds and its value starts with a space.
\<close>

theorem Name_init_keeps_whitespace_counterexample:
  "Name_init (py '' Bob'') = Inr (NameObj (py '' Bob''))
   \<and> name_value (NameObj (py '' Bob'')) \<noteq> strip (name_value (NameObj (py '' Bob'')))
   \<and> isspace_cp (hd (name_value (NameObj (py '' Bob''))))"
  by (simp add: Name_init_def Name_is_valid_def truthy_str_def strip_def char_tables)

text \<open>
  Claim C6, amended: for every string \<open>s\<close>, Name construction fails with the
  invalid-name \<^verbatim>\<open>ValueError\<close> exactly when the stripped input is empty (so for every
  empty or whitespace-only \<open>s\<close>); a constructed Name stores \<open>s\<close> itself, unchanged, and
  that value is never empty and never all whitespace.
\<close>

theorem Name_init_valid_iff:
  "((Name_init s = Inl (ValueError (py ''Invalid name format. Name must not be empty.'')))
      = (strip s = []))
   \<and> ((Name_init s = Inr n) = (strip s \<noteq> [] \<and> n = NameObj s))
   \<and> (s = [] \<or> list_all isspace_cp s \<longrightarrow> (\<exists>e. Name_init s = Inl e))
   \<and> (Name_init s = Inr n \<longrightarrow> name_value n = s \<and> s \<noteq> [] \<and> \<not> list_all isspace_cp s)"
proof -
  have "s = [] \<Longrightarrow> strip s = []" by (simp add: strip_def)
  then show ?thesis
    unfolding Name_init_def Name_is_valid_def truthy_str_def strip_Nil_iff [symmetric]
    by auto
qed

text \<open>The theorem at two inputs: two spaces are rejected, \<^verbatim>\<open>"Bob"\<close> is stored as it is.\<close>

theorem Name_init_valid_iff_witness:
  "Name_init (py ''  '') = Inl (ValueError (py ''Invalid name format. Name must not be empty.''))
   \<and> Name_init (py ''Bob'') = Inr (NameObj (py ''Bob''))
   \<and> name_value (NameObj (py ''Bob'')) = py ''Bob''"
proof -
  have a: "strip (py ''  '') = []" by (simp add: strip_def char_tables)
  have b: "strip (py ''Bob'') \<noteq> []" by (simp add: strip_def char_tables)
  show ?thesis
    using Name_init_valid_iff [of "py ''  ''" "NameObj (py ''  '')"]
      Name_init_valid_iff [of "py ''Bob''" "NameObj (py ''Bob'')"] a b
    by simp
qed

section \<open>Phone\<close>

text \<open>
  Claim C4, as the spec states it, restricts a Phone to ASCII digits. The constructor
  asks \<^verbatim>\<open>str.isdigit\<close>, which is true of every Unicode digit: ten times SUPERSCRIPT
  TWO (U+00B2) is accepted.
\<close>

theorem Phone_init_superscript_counterexample:
  "Phone_init [178, 178, 178, 178, 178, 178, 178, 178, 178, 178]
     = Inr (PhoneObj [178, 178, 178, 178, 178, 178, 178, 178, 178, 178])
   \<and> \<not> list_all ascii_digit [178, 178, 178, 178, 178, 178, 178, 178, 178, 178]"
  by (simp add: Phone_init_def Phone_is_valid_def isdigit_def ascii_digit_def char_tables)

text \<open>
  Claim C4, amended: for every string \<open>s\<close>, Phone construction succeeds if and only if
  \<open>s\<close> has exactly ten characters and each is a digit in the sense of
  \<^verbatim>\<open>str.isdigit\<close>, and fails with the invalid-phone \<^verbatim>\<open>ValueError\<close> otherwise; a
  constructed Phone renders back to \<open>s\<close>; in particular every string of ten ASCII
  digits is accepted and renders back to itself.
\<close>

theorem Phone_init_valid_iff:
  "((Phone_init s = Inr p) = (length s = 10 \<and> list_all isdigit_cp s \<and> p = PhoneObj s))
   \<and> ((Phone_init s = Inl (ValueError (py ''Invalid phone  format. Phone must be 10 digits.'')))
        = (\<not> (length s = 10 \<and> list_all isdigit_cp s)))
   \<and> (Phone_init s = Inr p \<longrightarrow> Phone_str p = s)
   \<and> (length s = 10 \<and> list_all ascii_digit s
        \<longrightarrow> Phone_init s = Inr (PhoneObj s) \<and> Phone_str (PhoneObj s) = s)"
proof -
  have "length s = 10 \<Longrightarrow> s \<noteq> []" by auto
  moreover have "list_all ascii_digit s \<Longrightarrow> list_all isdigit_cp s"
    by (auto simp: list_all_iff ascii_digit_isdigit_cp)
  ultimately show ?thesis
    unfolding Phone_init_def Phone_is_valid_def isdigit_def Phone_str_def
    by auto
qed

text \<open>The theorem at \<^verbatim>\<open>"1234567890"\<close>.\<close>

theorem Phone_init_valid_iff_witness:
  "Phone_init (py ''1234567890'') = Inr (PhoneObj (py ''1234567890''))
   \<and> Phone_str (PhoneObj (py ''1234567890'')) = py ''1234567890''"
proof -
  have "length (py ''1234567890'') = 10 \<and> list_all ascii_digit (py ''1234567890'')"
    by (simp add: ascii_digit_def)
  then show ?thesis
    using Phone_init_valid_iff [of "py ''1234567890''" "PhoneObj (py ''1234567890'')"]
    by blast
qed

section \<open>Record: phones\<close>

lemma edit_phone_loop_eq:
  "\<forall>j<i. phone_value (phones r ! j) \<noteq> old_phone \<Longrightarrow> i \<le> length (phones r) \<Longrightarrow>
   edit_phone_loop i old_phone new_phone r =
     (if old_phone \<in> phone_value ` set (phones r)
      then (case Phone_init new_phone of
              Inl e \<Rightarrow> (Inl e, r)
            | Inr p \<Rightarrow> (Inr (), r\<lparr>phones := (phones r)[first_index old_phone (phones r) := p]\<rparr>))
      else (Inl (ValueError (py ''Phone not found'')), r))"
proof (induction i old_phone new_phone r rule: edit_phone_loop.induct)
  case (1 i old_phone new_phone r)
  let ?ps = "phones r"
  show ?case
  proof (cases "i < length ?ps")
    case False
    with "1.prems" have "\<forall>j<length ?ps. phone_value (?ps ! j) \<noteq> old_phone" by auto
    then have "old_phone \<notin> phone_value ` set ?ps" by (auto simp: in_set_conv_nth)
    with False show ?thesis by (simp add: edit_phone_loop.simps [of i])
  next
    case lt: True
    show ?thesis
    proof (cases "phone_value (?ps ! i) = old_phone")
      case True
      have "takeWhile (\<lambda>p. phone_value p \<noteq> old_phone) ?ps = take i ?ps"
        using "1.prems" True lt by (intro takeWhile_eq_take_P_nth) auto
      then have fi: "first_index old_phone ?ps = i" using lt by (simp add: first_index_def)
      have "old_phone \<in> phone_value ` set ?ps" using True lt by (metis imageI nth_mem)
      with True lt fi show ?thesis
        by (simp add: edit_phone_loop.simps [of i] split: sum.split)
    next
      case False
      have "\<forall>j<i + 1. phone_value (?ps ! j) \<noteq> old_phone"
        using "1.prems" False by (auto simp: less_Suc_eq)
      with "1.IH" [OF lt False] lt False show ?thesis
        by (simp add: edit_phone_loop.simps [of i])
    qed
  qed
qed

lemma edit_phone_eq:
  "edit_phone old_phone new_phone r =
     (if old_phone \<in> phone_value ` set (phones r)
      then (case Phone_init new_phone of
              Inl e \<Rightarrow> (Inl e, r)
            | Inr p \<Rightarrow> (Inr (), r\<lparr>phones := (phones r)[first_index old_phone (phones r) := p]\<rparr>))
      else (Inl (ValueError (py ''Phone not found'')), r))"
  unfolding edit_phone_def by (rule edit_phone_loop_eq) auto

lemma find_phone_loop_None: "(find_phone_loop ps v = None) = (v \<notin> phone_value ` set ps)"
  by (induction ps) auto

lemma find_phone_loop_Some: "find_phone_loop ps v = Some p \<Longrightarrow> p \<in> set ps \<and> phone_value p = v"
  by (induction ps) (auto split: if_splits)

text \<open>
  Claim C3, as the spec states it, has \<^verbatim>\<open>edit_phone\<close> fail with the invalid-phone
  error whenever the new phone is malformed. The new phone is validated only once an
  entry equal to the old one is found: on a record with phones \<^verbatim>\<open>["1234567890"]\<close>,
  \<^verbatim>\<open>edit_phone("5555555555", "12345")\<close> has a malformed new phone and raises the
  not-found \<^verbatim>\<open>ValueError\<close>, not the invalid-phone one.
\<close>

theorem edit_phone_absent_malformed_counterexample:
  "\<not> Phone_is_valid (py ''12345'')
   \<and> edit_phone (py ''5555555555'') (py ''12345'')
        \<lparr>name = NameObj (py ''Ann''), phones = [PhoneObj (py ''1234567890'')], birthday = None\<rparr>
     = (Inl (ValueError (py ''Phone not found'')),
        \<lparr>name = NameObj (py ''Ann''), phones = [PhoneObj (py ''1234567890'')], birthday = None\<rparr>)
   \<and> fst (edit_phone (py ''5555555555'') (py ''12345'')
        \<lparr>name = NameObj (py ''Ann''), phones = [PhoneObj (py ''1234567890'')], birthday = None\<rparr>)
     \<noteq> Inl (ValueError (py ''Invalid phone  format. Phone must be 10 digits.''))"
proof -
  have 1: "\<not> Phone_is_valid (py ''12345'')" by (simp add: Phone_is_valid_def)
  have 2: "edit_phone (py ''5555555555'') (py ''12345'')
        \<lparr>name = NameObj (py ''Ann''), phones = [PhoneObj (py ''1234567890'')], birthday = None\<rparr>
      = (Inl (ValueError (py ''Phone not found'')),
         \<lparr>name = NameObj (py ''Ann''), phones = [PhoneObj (py ''1234567890'')], birthday = None\<rparr>)"
    by (simp add: edit_phone_eq)
  have 3: "fst (edit_phone (py ''5555555555'') (py ''12345'')
        \<lparr>name = NameObj (py ''Ann''), phones = [PhoneObj (py ''1234567890'')], birthday = None\<rparr>)
      \<noteq> Inl (ValueError (py ''Invalid phone  format. Phone must be 10 digits.''))"
    unfolding 2 by simp
  from 1 2 3 show ?thesis by (intro conjI)
qed

text \<open>
  Claim C3, amended: \<^verbatim>\<open>edit_phone(old, new)\<close> fails with the not-found \<^verbatim>\<open>ValueError\<close>
  when no phone equals \<open>old\<close>, whether or not \<open>new\<close> is well formed; when a phone
  equals \<open>old\<close>, it fails with the invalid-phone \<^verbatim>\<open>ValueError\<close> if \<open>new\<close> is malformed,
  and otherwise replaces, in place, the first entry equal to \<open>old\<close> by the validated
  \<open>new\<close>, leaving the record otherwise as it was. On a record with phones
  \<^verbatim>\<open>["1234567890"]\<close>, editing to \<^verbatim>\<open>"0987654321"\<close> succeeds, after which \<^verbatim>\<open>find_phone\<close>
  reports the old number absent and the new one present.
\<close>

theorem edit_phone_spec:
  "(old_phone \<notin> phone_value ` set (phones r)
      \<longrightarrow> edit_phone old_phone new_phone r = (Inl (ValueError (py ''Phone not found'')), r))
   \<and> (old_phone \<in> phone_value ` set (phones r) \<and> \<not> Phone_is_valid new_phone
      \<longrightarrow> edit_phone old_phone new_phone r
          = (Inl (ValueError (py ''Invalid phone  format. Phone must be 10 digits.'')), r))
   \<and> (old_phone \<in> phone_value ` set (phones r) \<and> Phone_is_valid new_phone
      \<longrightarrow> edit_phone old_phone new_phone r
            = (Inr (), r\<lparr>phones := (phones r)[first_index old_phone (phones r) := PhoneObj new_phone]\<rparr>)
          \<and> first_index old_phone (phones r) < length (phones r)
          \<and> phone_value (phones r ! first_index old_phone (phones r)) = old_phone
          \<and> (\<forall>j < first_index old_phone (phones r). phone_value (phones r ! j) \<noteq> old_phone))
   \<and> (phones r = [PhoneObj (py ''1234567890'')]
      \<longrightarrow> fst (edit_phone (py ''1234567890'') (py ''0987654321'') r) = Inr ()
          \<and> find_phone (py ''1234567890'') (snd (edit_phone (py ''1234567890'') (py ''0987654321'') r)) = None
          \<and> find_phone (py ''0987654321'') (snd (edit_phone (py ''1234567890'') (py ''0987654321'') r))
              = Some (PhoneObj (py ''0987654321'')))"
proof -
  let ?P = "\<lambda>p. phone_value p \<noteq> old_phone"
  have idx: "first_index old_phone (phones r) < length (phones r)
      \<and> phone_value (phones r ! first_index old_phone (phones r)) = old_phone
      \<and> (\<forall>j < first_index old_phone (phones r). phone_value (phones r ! j) \<noteq> old_phone)"
    if "old_phone \<in> phone_value ` set (phones r)"
  proof -
    from that have ex: "\<exists>p\<in>set (phones r). \<not> ?P p" by auto
    have "length (takeWhile ?P (phones r)) \<noteq> length (phones r)"
    proof
      assume e: "length (takeWhile ?P (phones r)) = length (phones r)"
      have "takeWhile ?P (phones r) = take (length (takeWhile ?P (phones r))) (phones r)"
        by (rule takeWhile_eq_take)
      with e have "takeWhile ?P (phones r) = phones r" by simp
      with ex show False by (simp add: takeWhile_eq_all_conv)
    qed
    moreover have "length (takeWhile ?P (phones r)) \<le> length (phones r)"
      by (rule length_takeWhile_le)
    ultimately have a: "length (takeWhile ?P (phones r)) < length (phones r)" by simp
    have b: "\<not> ?P (phones r ! length (takeWhile ?P (phones r)))"
      using a by (rule nth_length_takeWhile)
    have c: "\<forall>j < length (takeWhile ?P (phones r)). ?P (phones r ! j)"
    proof (intro allI impI)
      fix j assume "j < length (takeWhile ?P (phones r))"
      then have "takeWhile ?P (phones r) ! j \<in> set (takeWhile ?P (phones r))"
        and "takeWhile ?P (phones r) ! j = phones r ! j"
        by (rule nth_mem, rule takeWhile_nth)
      then show "?P (phones r ! j)" by (auto dest: set_takeWhileD)
    qed
    from a b c show ?thesis by (simp add: first_index_def)
  qed
  have c1: "old_phone \<notin> phone_value ` set (phones r)
      \<longrightarrow> edit_phone old_phone new_phone r = (Inl (ValueError (py ''Phone not found'')), r)"
    by (simp add: edit_phone_eq)
  have c2: "old_phone \<in> phone_value ` set (phones r) \<and> \<not> Phone_is_valid new_phone
      \<longrightarrow> edit_phone old_phone new_phone r
          = (Inl (ValueError (py ''Invalid phone  format. Phone must be 10 digits.'')), r)"
    by (simp add: edit_phone_eq Phone_init_def)
  have c3: "old_phone \<in> phone_value ` set (phones r) \<and> Phone_is_valid new_phone
      \<longrightarrow> edit_phone old_phone new_phone r
            = (Inr (), r\<lparr>phones := (phones r)[first_index old_phone (phones r) := PhoneObj new_phone]\<rparr>)
          \<and> first_index old_phone (phones r) < length (phones r)
          \<and> phone_value (phones r ! first_index old_phone (phones r)) = old_phone
          \<and> (\<forall>j < first_index old_phone (phones r). phone_value (phones r ! j) \<noteq> old_phone)"
    using idx by (simp add: edit_phone_eq Phone_init_def)
  have v: "Phone_is_valid (py ''0987654321'')"
    by (simp add: Phone_is_valid_def isdigit_def char_tables)
  have c4: "phones r = [PhoneObj (py ''1234567890'')]
      \<longrightarrow> fst (edit_phone (py ''1234567890'') (py ''0987654321'') r) = Inr ()
          \<and> find_phone (py ''1234567890'') (snd (edit_phone (py ''1234567890'') (py ''0987654321'') r)) = None
          \<and> find_phone (py ''0987654321'') (snd (edit_phone (py ''1234567890'') (py ''0987654321'') r))
              = Some (PhoneObj (py ''0987654321''))"
  proof
    assume ps: "phones r = [PhoneObj (py ''1234567890'')]"
    have fi: "first_index (py ''1234567890'') (phones r) = 0"
      by (simp add: ps first_index_def)
    have e: "edit_phone (py ''1234567890'') (py ''0987654321'') r
        = (Inr (), r\<lparr>phones := [PhoneObj (py ''0987654321'')]\<rparr>)"
      unfolding edit_phone_eq fi using v by (simp add: ps Phone_init_def)
    show "fst (edit_phone (py ''1234567890'') (py ''0987654321'') r) = Inr ()
          \<and> find_phone (py ''1234567890'') (snd (edit_phone (py ''1234567890'') (py ''0987654321'') r)) = None
          \<and> find_phone (py ''0987654321'') (snd (edit_phone (py ''1234567890'') (py ''0987654321'') r))
              = Some (PhoneObj (py ''0987654321''))"
      unfolding e by (simp add: find_phone_def)
  qed
  from c1 c2 c3 c4 show ?thesis by (intro conjI)
qed


text \<open>The theorem on a record with one phone: not found, malformed, replaced.\<close>

theorem edit_phone_spec_witness:
  "edit_phone (py ''5555555555'') (py ''0987654321'')
      \<lparr>name = NameObj (py ''Ann''), phones = [PhoneObj (py ''1234567890'')], birthday = None\<rparr>
     = (Inl (ValueError (py ''Phone not found'')),
        \<lparr>name = NameObj (py ''Ann''), phones = [PhoneObj (py ''1234567890'')], birthday = None\<rparr>)
   \<and> edit_phone (py ''1234567890'') (py ''12345'')
      \<lparr>name = NameObj (py ''Ann''), phones = [PhoneObj (py ''1234567890'')], birthday = None\<rparr>
     = (Inl (ValueError (py ''Invalid phone  format. Phone must be 10 digits.'')),
        \<lparr>name = NameObj (py ''Ann''), phones = [PhoneObj (py ''1234567890'')], birthday = None\<rparr>)
   \<and> edit_phone (py ''1234567890'') (py ''0987654321'')
      \<lparr>name = NameObj (py ''Ann''), phones = [PhoneObj (py ''1234567890'')], birthday = None\<rparr>
     = (Inr (),
        \<lparr>name = NameObj (py ''Ann''), phones = [PhoneObj (py ''0987654321'')], birthday = None\<rparr>)"
proof -
  let ?r = "\<lparr>name = NameObj (py ''Ann''), phones = [PhoneObj (py ''1234567890'')], birthday = None\<rparr>"
  have a: "py ''5555555555'' \<notin> phone_value ` set (phones ?r)" by simp
  have b: "py ''1234567890'' \<in> phone_value ` set (phones ?r)" by simp
  have c: "\<not> Phone_is_valid (py ''12345'')" by (simp add: Phone_is_valid_def)
  have d: "Phone_is_valid (py ''0987654321'')"
    by (simp add: Phone_is_valid_def isdigit_def char_tables)
  have e: "first_index (py ''1234567890'') (phones ?r) = 0" by (simp add: first_index_def)
  have 1: "edit_phone (py ''5555555555'') (py ''0987654321'') ?r
      = (Inl (ValueError (py ''Phone not found'')), ?r)"
    using edit_phone_spec [of "py ''5555555555''" ?r "py ''0987654321''"] a by blast
  have 2: "edit_phone (py ''1234567890'') (py ''12345'') ?r
      = (Inl (ValueError (py ''Invalid phone  format. Phone must be 10 digits.'')), ?r)"
    using edit_phone_spec [of "py ''1234567890''" ?r "py ''12345''"] b c by blast
  have "edit_phone (py ''1234567890'') (py ''0987654321'') ?r
      = (Inr (), ?r\<lparr>phones := (phones ?r)[first_index (py ''1234567890'') (phones ?r)
            := PhoneObj (py ''0987654321'')]\<rparr>)"
    using edit_phone_spec [of "py ''1234567890''" ?r "py ''0987654321''"] b d by blast
  then have 3: "edit_phone (py ''1234567890'') (py ''0987654321'') ?r
      = (Inr (), \<lparr>name = NameObj (py ''Ann''), phones = [PhoneObj (py ''0987654321'')],
           birthday = None\<rparr>)"
    unfolding e by simp
  from 1 2 3 show ?thesis by (intro conjI)
qed

text \<open>
  Claim C10: when the record holds a phone equal to \<open>old\<close> and \<open>new\<close> is malformed,
  \<^verbatim>\<open>edit_phone\<close> raises and the record, its phone list included, is exactly as before
  the call.
\<close>

theorem edit_phone_invalid_atomic:
  assumes "old_phone \<in> phone_value ` set (phones r)" and "\<not> Phone_is_valid new_phone"
  shows "(\<exists>e. fst (edit_phone old_phone new_phone r) = Inl e)
         \<and> phones (snd (edit_phone old_phone new_phone r)) = phones r
         \<and> snd (edit_phone old_phone new_phone r) = r"
  using assms by (simp add: edit_phone_eq Phone_init_def)

text \<open>The theorem on a record with two phones and a malformed replacement.\<close>

theorem edit_phone_invalid_atomic_witness:
  "py ''1234567890'' \<in> phone_value ` set (phones
      \<lparr>name = NameObj (py ''Ann''), phones = [PhoneObj (py ''1112223333''), PhoneObj (py ''1234567890'')],
       birthday = None\<rparr>)
   \<and> \<not> Phone_is_valid (py ''12-34'')
   \<and> phones (snd (edit_phone (py ''1234567890'') (py ''12-34'')
        \<lparr>name = NameObj (py ''Ann''), phones = [PhoneObj (py ''1112223333''), PhoneObj (py ''1234567890'')],
         birthday = None\<rparr>))
      = [PhoneObj (py ''1112223333''), PhoneObj (py ''1234567890'')]"
proof -
  let ?r = "\<lparr>name = NameObj (py ''Ann''),
      phones = [PhoneObj (py ''1112223333''), PhoneObj (py ''1234567890'')], birthday = None\<rparr>"
  have b: "py ''1234567890'' \<in> phone_value ` set (phones ?r)" by simp
  have c: "\<not> Phone_is_valid (py ''12-34'')" by (simp add: Phone_is_valid_def)
  from edit_phone_invalid_atomic [OF b c] b c show ?thesis by simp
qed

section \<open>Record: birthday\<close>

text \<open>
  Claim C2, as the spec states it, promises the already-set status for every input
  string. \<^verbatim>\<open>add_birthday\<close> builds the \<^verbatim>\<open>Birthday\<close> before it looks at the stored
  one, so a string that is no date raises \<^verbatim>\<open>ValueError\<close> also when a birthday is set.
\<close>

theorem add_birthday_invalid_counterexample:
  "add_birthday (py ''soon'')
      \<lparr>name = NameObj (py ''Ann''), phones = [],
       birthday = Some (BirthdayObj \<lparr>year = 1990, month = 6, day = 5\<rparr>)\<rparr>
     = (Inl (ValueError (py ''Invalid date format. Use DD.MM.YYYY'')),
        \<lparr>name = NameObj (py ''Ann''), phones = [],
         birthday = Some (BirthdayObj \<lparr>year = 1990, month = 6, day = 5\<rparr>)\<rparr>)"
  by (simp add: add_birthday_def Birthday_init_def Birthday_is_valid_def strptime_eval)

text \<open>
  Claim C2, amended: on a record whose birthday is set, \<^verbatim>\<open>add_birthday(raw)\<close> never
  changes the record; it returns the already-set status when \<open>raw\<close> parses as a date
  and raises the invalid-date \<^verbatim>\<open>ValueError\<close> when it does not. Two calls with
  parsable strings on a record without birthday: the first sets it, the second
  reports already set and leaves the first date.
\<close>

theorem add_birthday_already_set:
  "(birthday r = Some b
      \<longrightarrow> add_birthday raw r
          = (if Birthday_is_valid raw = None
             then Inl (ValueError (py ''Invalid date format. Use DD.MM.YYYY''))
             else Inr (py ''Already have''), r))
   \<and> (birthday r = None \<and> Birthday_init raw1 = Inr b1 \<and> Birthday_is_valid raw2 \<noteq> None
      \<longrightarrow> add_birthday raw1 r = (Inr (py ''Birthday added.''), r\<lparr>birthday := Some b1\<rparr>)
          \<and> add_birthday raw2 (snd (add_birthday raw1 r))
              = (Inr (py ''Already have''), r\<lparr>birthday := Some b1\<rparr>))"
  by (auto simp: add_birthday_def Birthday_init_def split: option.splits)

text \<open>The theorem on a record with birthday 05.06.1990, and on two calls in a row.\<close>

theorem add_birthday_already_set_witness:
  "add_birthday (py ''01.01.2000'')
      \<lparr>name = NameObj (py ''Ann''), phones = [],
       birthday = Some (BirthdayObj \<lparr>year = 1990, month = 6, day = 5\<rparr>)\<rparr>
     = (Inr (py ''Already have''),
        \<lparr>name = NameObj (py ''Ann''), phones = [],
         birthday = Some (BirthdayObj \<lparr>year = 1990, month = 6, day = 5\<rparr>)\<rparr>)
   \<and> add_birthday (py ''01.01.2000'') (snd (add_birthday (py ''05.06.1990'')
        \<lparr>name = NameObj (py ''Ann''), phones = [], birthday = None\<rparr>))
     = (Inr (py ''Already have''),
        \<lparr>name = NameObj (py ''Ann''), phones = [],
         birthday = Some (BirthdayObj \<lparr>year = 1990, month = 6, day = 5\<rparr>)\<rparr>)"
proof -
  let ?b = "BirthdayObj \<lparr>year = 1990, month = 6, day = 5\<rparr>"
  let ?r = "\<lparr>name = NameObj (py ''Ann''), phones = [], birthday = Some ?b\<rparr>"
  let ?rn = "\<lparr>name = NameObj (py ''Ann''), phones = [], birthday = None\<rparr>"
  have v1: "Birthday_init (py ''05.06.1990'') = Inr ?b"
    by (simp add: Birthday_init_def Birthday_is_valid_def strptime_eval)
  have v2: "Birthday_is_valid (py ''01.01.2000'') \<noteq> None"
    by (simp add: Birthday_is_valid_def strptime_eval)
  have 1: "add_birthday (py ''01.01.2000'') ?r = (Inr (py ''Already have''), ?r)"
  proof -
    have n: "birthday ?r = Some ?b" by simp
    show ?thesis
      using add_birthday_already_set [where r = ?r and b = ?b and raw = "py ''01.01.2000''"] n v2
      by presburger
  qed
  have 2: "add_birthday (py ''01.01.2000'') (snd (add_birthday (py ''05.06.1990'') ?rn))
      = (Inr (py ''Already have''), ?rn\<lparr>birthday := Some ?b\<rparr>)"
  proof -
    have n: "birthday ?rn = None" by simp
    show ?thesis
      using add_birthday_already_set [where r = ?rn and ?raw1.0 = "py ''05.06.1990''"
          and ?b1.0 = ?b and ?raw2.0 = "py ''01.01.2000''"] n v1 v2
      by blast
  qed
  from 1 2 show ?thesis by simp
qed

section \<open>AddressBook: find, add and delete\<close>

lemma dict_get_None_iff: "(dict_get book k = None) = (k \<notin> fst ` set book)"
  by (induction book) (auto simp: image_iff split: if_splits)

lemma dict_get_filter:
  "dict_get (filter (\<lambda>(k', v'). k' \<noteq> k) book) k2 = (if k2 = k then None else dict_get book k2)"
  by (induction book) auto

lemma filter_absent_key: "k \<notin> fst ` set book \<Longrightarrow> filter (\<lambda>(k', v'). k' \<noteq> k) book = book"
  by (induction book) auto

lemma dict_get_setitem:
  "dict_get (dict_setitem k v book) k2 = (if k2 = k then Some v else dict_get book k2)"
  by (induction book) auto

lemma keys_setitem:
  "map fst (dict_setitem k v book) = (if k \<in> fst ` set book then map fst book else map fst book @ [k])"
  by (induction book) (force split: if_splits)+

lemma distinct_setitem: "distinct (map fst book) \<Longrightarrow> distinct (map fst (dict_setitem k v book))"
  by (simp add: keys_setitem)

lemma distinct_filter_keys:
  "distinct (map fst book) \<Longrightarrow> distinct (map fst (filter (\<lambda>(k', v'). k' \<noteq> k) book))"
  by (induction book) auto

lemma delete_snd: "snd (delete nm book) = filter (\<lambda>(k', v'). k' \<noteq> nm) book"
  by (simp add: delete_def dict_pop_def split: option.split)

lemma delete_fst:
  "fst (delete nm book)
     = (if dict_get book nm = None then Inl (NameError (py ''Contact not found'')) else Inr ())"
  by (simp add: delete_def dict_pop_def split: option.split)

text \<open>
  Claim C7: \<^verbatim>\<open>delete(name)\<close> raises the not-found error if and only if the book has
  no entry for the name (then the book is unchanged); when there is one, the entry is
  removed, so that \<^verbatim>\<open>find(name)\<close> reports absence afterwards, and every other entry
  stays as it was, in its place. In particular deleting \<^verbatim>\<open>"Bob"\<close> from a book without
  such an entry raises.
\<close>

theorem delete_spec:
  "((fst (delete nm book) = Inl (NameError (py ''Contact not found'')))
      = (find_record nm book = None))
   \<and> ((fst (delete nm book) = Inr ()) = (find_record nm book \<noteq> None))
   \<and> find_record nm (snd (delete nm book)) = None
   \<and> (\<forall>other. other \<noteq> nm
        \<longrightarrow> find_record other (snd (delete nm book)) = find_record other book)
   \<and> snd (delete nm book) = filter (\<lambda>(k, v). k \<noteq> nm) book
   \<and> (find_record nm book = None \<longrightarrow> snd (delete nm book) = book)
   \<and> (find_record (py ''Bob'') book = None
        \<longrightarrow> delete (py ''Bob'') book = (Inl (NameError (py ''Contact not found'')), book))"
proof -
  have a: "find_record k book = None \<Longrightarrow> snd (delete k book) = book" for k
    by (simp add: delete_snd find_record_def dict_get_None_iff filter_absent_key)
  have b: "find_record k book = None
      \<Longrightarrow> delete k book = (Inl (NameError (py ''Contact not found'')), book)" for k
    using a [of k] by (simp add: prod_eq_iff delete_fst find_record_def)
  show ?thesis
    using a [of nm] b [of "py ''Bob''"]
    by (simp add: delete_fst delete_snd find_record_def dict_get_filter)
qed

text \<open>The theorem on a book holding Ann only.\<close>

theorem delete_spec_witness:
  "delete (py ''Bob'') [(py ''Ann'', \<lparr>name = NameObj (py ''Ann''), phones = [], birthday = None\<rparr>)]
     = (Inl (NameError (py ''Contact not found'')),
        [(py ''Ann'', \<lparr>name = NameObj (py ''Ann''), phones = [], birthday = None\<rparr>)])
   \<and> fst (delete (py ''Ann'')
        [(py ''Ann'', \<lparr>name = NameObj (py ''Ann''), phones = [], birthday = None\<rparr>)]) = Inr ()
   \<and> find_record (py ''Ann'') (snd (delete (py ''Ann'')
        [(py ''Ann'', \<lparr>name = NameObj (py ''Ann''), phones = [], birthday = None\<rparr>)])) = None"
proof -
  let ?bk = "[(py ''Ann'', \<lparr>name = NameObj (py ''Ann''), phones = [], birthday = None\<rparr>)]"
  have n: "find_record (py ''Bob'') ?bk = None" by (simp add: find_record_def)
  have m: "find_record (py ''Ann'') ?bk \<noteq> None" by (simp add: find_record_def)
  have 1: "delete (py ''Bob'') ?bk = (Inl (NameError (py ''Contact not found'')), ?bk)"
    using delete_spec [of "py ''Bob''" ?bk] n by blast
  have 2: "fst (delete (py ''Ann'') ?bk) = Inr ()"
    using delete_spec [of "py ''Ann''" ?bk] m by blast
  have 3: "find_record (py ''Ann'') (snd (delete (py ''Ann'') ?bk)) = None"
    using delete_spec [of "py ''Ann''" ?bk] by blast
  from 1 2 3 show ?thesis by (intro conjI)
qed

section \<open>Sequences of calls on a record\<close>

lemma apply_op_name: "name (apply_op op r) = name r"
  by (cases op)
    (simp_all add: add_phone_def remove_phone_def edit_phone_eq add_birthday_def
      split: sum.split)

lemma apply_op_birthday:
  "birthday (apply_op op r) = birthday r \<or> (birthday r = None \<and> birthday (apply_op op r) \<noteq> None)"
  by (cases op)
    (simp_all add: add_phone_def remove_phone_def edit_phone_eq add_birthday_def
      split: sum.split)

lemma run_ops_birthday: "birthday r = Some b \<Longrightarrow> birthday (run_ops ops r) = Some b"
proof (induction ops arbitrary: r)
  case Nil
  then show ?case by (simp add: run_ops_def)
next
  case (Cons op ops)
  from Cons.prems apply_op_birthday [of op r] have "birthday (apply_op op r) = Some b" by auto
  then have "birthday (run_ops ops (apply_op op r)) = Some b" by (rule Cons.IH)
  then show ?case by (simp add: run_ops_def)
qed

text \<open>
  Claim C9: over every sequence of calls of \<^verbatim>\<open>add_phone\<close>, \<^verbatim>\<open>remove_phone\<close>,
  \<^verbatim>\<open>edit_phone\<close>, \<^verbatim>\<open>find_phone\<close>, \<^verbatim>\<open>add_birthday\<close> and rendering, returning or
  raising, a birthday that is set stays set to the same date; a single call either
  leaves the birthday field as it is or takes it from unset to set.
\<close>

theorem birthday_one_way:
  "(birthday r = Some b \<longrightarrow> birthday (run_ops ops r) = Some b)
   \<and> (birthday r = Some b \<longrightarrow> birthday (apply_op op r) = Some b)
   \<and> (birthday (apply_op op r) = birthday r
        \<or> (birthday r = None \<and> birthday (apply_op op r) \<noteq> None))"
  using run_ops_birthday [of r b ops] apply_op_birthday [of op r] by auto

text \<open>The theorem on seven calls, two of them \<^verbatim>\<open>add_birthday\<close>.\<close>

theorem birthday_one_way_witness:
  "birthday (run_ops
       [AddBirthday (py ''01.01.2000''), AddBirthday (py ''soon''), AddPhone (py ''1112223333''),
        EditPhone (py ''1112223333'') (py ''0987654321''), FindPhone (py ''0987654321''),
        RemovePhone (py ''0987654321''), Render]
       \<lparr>name = NameObj (py ''Ann''), phones = [],
        birthday = Some (BirthdayObj \<lparr>year = 1990, month = 6, day = 5\<rparr>)\<rparr>)
     = Some (BirthdayObj \<lparr>year = 1990, month = 6, day = 5\<rparr>)"
proof -
  let ?b = "BirthdayObj \<lparr>year = 1990, month = 6, day = 5\<rparr>"
  let ?r = "\<lparr>name = NameObj (py ''Ann''), phones = [], birthday = Some ?b\<rparr>"
  have "birthday ?r = Some ?b" by simp
  then show ?thesis
    using birthday_one_way [where r = ?r and b = ?b] by blast
qed

section \<open>Reachable books\<close>

lemma setitem_named:
  "list_all (\<lambda>(k, v). k = name_value (name v)) book \<Longrightarrow> k = name_value (name v)
   \<Longrightarrow> list_all (\<lambda>(k, v). k = name_value (name v)) (dict_setitem k v book)"
  by (induction book) auto

lemma dict_get_named:
  "list_all (\<lambda>(k, v). k = name_value (name v)) book \<Longrightarrow> dict_get book k = Some r
   \<Longrightarrow> k = name_value (name r)"
  by (induction book) (auto split: if_splits)

lemma reachable_inv: "reachable book \<Longrightarrow> book_inv book"
proof (induction rule: reachable.induct)
  case empty
  show ?case by (simp add: book_inv_def)
next
  case (add book r)
  then show ?case by (simp add: book_inv_def add_record_def distinct_setitem setitem_named)
next
  case (del book nm)
  then show ?case by (simp add: book_inv_def delete_snd distinct_filter_keys list_all_iff)
next
  case (mut book nm r op)
  then have "nm = name_value (name r)"
    by (auto simp: book_inv_def find_record_def dest: dict_get_named)
  with mut show ?case
    by (simp add: book_inv_def distinct_setitem setitem_named apply_op_name)
qed

lemma count_key_distinct:
  "distinct (map fst book) \<Longrightarrow> k \<in> fst ` set book
   \<Longrightarrow> length (filter (\<lambda>(k', v). k' = k) book) = 1"
proof (induction book)
  case Nil
  then show ?case by simp
next
  case (Cons kv book)
  show ?case
  proof (cases "fst kv = k")
    case True
    with Cons.prems have "k \<notin> fst ` set book" by auto
    then have "filter (\<lambda>kv. fst kv = k) book = []"
      by (force simp: filter_empty_conv)
    with True show ?thesis by (simp add: case_prod_beta)
  next
    case False
    with Cons show ?thesis by (auto simp: case_prod_beta)
  qed
qed

text \<open>
  Claim C8: a book built by the core operations has distinct keys, each the name of
  the record it holds, so at most one record per name. \<^verbatim>\<open>add_record\<close> never fails: it
  stores the record under its name, replacing the entry of that name when there is
  one and adding an entry otherwise; afterwards \<^verbatim>\<open>find\<close> on that name returns the
  record just added, exactly one entry has that name, and the other names are as
  before.
\<close>

theorem reachable_unique_names:
  assumes "reachable book"
  shows "distinct (map fst book)
    \<and> list_all (\<lambda>(k, v). k = name_value (name v)) book
    \<and> find_record (name_value (name r)) (add_record r book) = Some r
    \<and> length (filter (\<lambda>(k, v). k = name_value (name r)) (add_record r book)) = 1
    \<and> distinct (map fst (add_record r book))
    \<and> (\<forall>other. other \<noteq> name_value (name r)
         \<longrightarrow> find_record other (add_record r book) = find_record other book)
    \<and> length (add_record r book)
        = (if find_record (name_value (name r)) book = None then length book + 1 else length book)"
proof -
  from assms have inv: "book_inv book" by (rule reachable_inv)
  have "reachable (add_record r book)" using assms by (rule reachable.add)
  then have inv': "book_inv (add_record r book)" by (rule reachable_inv)
  have f: "find_record k (add_record r book)
      = (if k = name_value (name r) then Some r else find_record k book)" for k
    by (simp add: find_record_def add_record_def dict_get_setitem)
  have "dict_get (add_record r book) (name_value (name r)) \<noteq> None"
    using f [of "name_value (name r)"] by (simp add: find_record_def)
  then have "name_value (name r) \<in> fst ` set (add_record r book)"
    by (simp add: dict_get_None_iff)
  with inv' have c: "length (filter (\<lambda>(k, v). k = name_value (name r)) (add_record r book)) = 1"
    by (simp add: book_inv_def count_key_distinct)
  have "length (map fst (add_record r book))
      = (if find_record (name_value (name r)) book = None then length book + 1 else length book)"
    unfolding add_record_def keys_setitem find_record_def dict_get_None_iff by simp
  then have l: "length (add_record r book)
      = (if find_record (name_value (name r)) book = None then length book + 1 else length book)"
    by simp
  from inv inv' f c l show ?thesis by (simp add: book_inv_def)
qed

text \<open>The theorem on a book where Ann is added twice: the second record wins.\<close>

theorem reachable_unique_names_witness:
  "reachable (add_record \<lparr>name = NameObj (py ''Ann''), phones = [], birthday = None\<rparr> [])
   \<and> add_record \<lparr>name = NameObj (py ''Ann''), phones = [PhoneObj (py ''1112223333'')], birthday = None\<rparr>
        (add_record \<lparr>name = NameObj (py ''Ann''), phones = [], birthday = None\<rparr> [])
      = [(py ''Ann'', \<lparr>name = NameObj (py ''Ann''), phones = [PhoneObj (py ''1112223333'')],
            birthday = None\<rparr>)]
   \<and> find_record (py ''Ann'')
        (add_record \<lparr>name = NameObj (py ''Ann''), phones = [PhoneObj (py ''1112223333'')], birthday = None\<rparr>
          (add_record \<lparr>name = NameObj (py ''Ann''), phones = [], birthday = None\<rparr> []))
      = Some \<lparr>name = NameObj (py ''Ann''), phones = [PhoneObj (py ''1112223333'')], birthday = None\<rparr>"
proof -
  let ?ra = "\<lparr>name = NameObj (py ''Ann''), phones = [], birthday = None\<rparr>"
  let ?rb = "\<lparr>name = NameObj (py ''Ann''), phones = [PhoneObj (py ''1112223333'')], birthday = None\<rparr>"
  have r: "reachable (add_record ?ra [])" by (rule reachable.add) (rule reachable.empty)
  have e: "add_record ?rb (add_record ?ra []) = [(py ''Ann'', ?rb)]" by (simp add: add_record_def)
  have "find_record (name_value (name ?rb)) (add_record ?rb (add_record ?ra [])) = Some ?rb"
    using reachable_unique_names [OF r, of ?rb] by blast
  then have "find_record (py ''Ann'') (add_record ?rb (add_record ?ra [])) = Some ?rb" by simp
  with r e show ?thesis by (intro conjI)
qed

section \<open>Parsing a date\<close>

lemma in_chr_m: "(r \<in> set (chr_m P s)) = (\<exists>c. s = c # r \<and> P c)"
  by (cases s) (auto simp: chr_m_def)

lemma in_seq_m: "(r \<in> set (seq_m a b s)) = (\<exists>q. q \<in> set (a s) \<and> r \<in> set (b q))"
  by (auto simp: seq_m_def)

lemma in_alt_m: "(r \<in> set (alt_m a b s)) = (r \<in> set (a s) \<or> r \<in> set (b s))"
  by (simp add: alt_m_def)

lemma in_lit: "(r \<in> set (lit ch s)) = (s = of_char ch # r)"
  by (auto simp: lit_def in_chr_m)

lemma in_chr2: "(r \<in> set (seq_m (chr_m P) (chr_m Q) s)) = (\<exists>a b. s = a # b # r \<and> P a \<and> Q b)"
  by (auto simp: in_seq_m in_chr_m)

lemma in_chr4:
  "(r \<in> set (seq_m (chr_m P) (seq_m (chr_m P) (seq_m (chr_m P) (chr_m P))) s))
     = (\<exists>a b c d. s = a # b # c # d # r \<and> P a \<and> P b \<and> P c \<and> P d)"
  by (auto simp: in_seq_m in_chr_m)

lemma day_field_iff:
  "day_field t = ((\<exists>a. t = [a] \<and> 49 \<le> a \<and> a \<le> 57)
     \<or> (\<exists>a b. t = [a, b] \<and> ((a = 51 \<and> 48 \<le> b \<and> b \<le> 49) \<or> (49 \<le> a \<and> a \<le> 50 \<and> isdecimal_cp b)
      \<or> (a = 48 \<and> 49 \<le> b \<and> b \<le> 57) \<or> (a = 32 \<and> 49 \<le> b \<and> b \<le> 57))))"
  by (cases t rule: day_field.cases) simp_all

lemma month_field_iff:
  "month_field t = ((\<exists>a. t = [a] \<and> 49 \<le> a \<and> a \<le> 57)
     \<or> (\<exists>a b. t = [a, b] \<and> ((a = 49 \<and> 48 \<le> b \<and> b \<le> 50) \<or> (a = 48 \<and> 49 \<le> b \<and> b \<le> 57))))"
  by (cases t rule: month_field.cases) simp_all

lemma year_field_iff:
  "year_field t = (\<exists>a b c d. t = [a, b, c, d] \<and> isdecimal_cp a \<and> isdecimal_cp b
      \<and> isdecimal_cp c \<and> isdecimal_cp d)"
  by (auto simp: year_field_def length_Suc_conv eval_nat_numeral)

lemma in_re_d: "(r \<in> set (re_d s)) = (\<exists>t. s = t @ r \<and> day_field t)"
  unfolding re_d_def lit_def cls_def dig_def in_alt_m in_chr2 in_chr_m day_field_iff
  by auto

lemma in_re_m: "(r \<in> set (re_m s)) = (\<exists>t. s = t @ r \<and> month_field t)"
  unfolding re_m_def lit_def cls_def dig_def in_alt_m in_chr2 in_chr_m month_field_iff
  by auto

lemma in_re_Y: "(r \<in> set (re_Y s)) = (\<exists>t. s = t @ r \<and> year_field t)"
  unfolding re_Y_def dig_def in_chr4 year_field_iff
  by auto

lemma in_group_m:
  "((t, r) \<in> set (group_m a s)) = (r \<in> set (a s) \<and> t = take (length s - length r) s)"
  by (auto simp: group_m_def)

lemma in_format_regex_matches_I:
  assumes 1: "(d, r1) \<in> set (group_m re_d s)" and 2: "r2 \<in> set (lit CHR ''.'' r1)"
    and 3: "(m, r3) \<in> set (group_m re_m r2)" and 4: "r4 \<in> set (lit CHR ''.'' r3)"
    and 5: "(y, r5) \<in> set (group_m re_Y r4)"
  shows "(d, m, y, r5) \<in> set (format_regex_matches s)"
  unfolding format_regex_matches_def
  apply simp
  apply (rule bexI [OF _ 1])
  apply simp
  apply (rule bexI [OF _ 2])
  apply (rule bexI [OF _ 3])
  apply simp
  apply (rule bexI [OF _ 4])
  apply (rule image_eqI [OF _ 5])
  apply simp
  done

lemma in_format_regex_matches:
  "((d, m, y, r5) \<in> set (format_regex_matches s))
     = (s = d @ 46 # m @ 46 # y @ r5 \<and> day_field d \<and> month_field m \<and> year_field y)"
proof
  assume "(d, m, y, r5) \<in> set (format_regex_matches s)"
  then show "s = d @ 46 # m @ 46 # y @ r5 \<and> day_field d \<and> month_field m \<and> year_field y"
    unfolding format_regex_matches_def
    by (auto simp: in_group_m in_re_d in_re_m in_re_Y in_lit)
next
  assume a: "s = d @ 46 # m @ 46 # y @ r5 \<and> day_field d \<and> month_field m \<and> year_field y"
  then have 1: "(d, 46 # m @ 46 # y @ r5) \<in> set (group_m re_d s)"
    by (auto simp: in_group_m in_re_d)
  have 2: "m @ 46 # y @ r5 \<in> set (lit CHR ''.'' (46 # m @ 46 # y @ r5))"
    by (simp add: in_lit)
  from a have 3: "(m, 46 # y @ r5) \<in> set (group_m re_m (m @ 46 # y @ r5))"
    by (auto simp: in_group_m in_re_m)
  have 4: "y @ r5 \<in> set (lit CHR ''.'' (46 # y @ r5))"
    by (simp add: in_lit)
  from a have 5: "(y, r5) \<in> set (group_m re_Y (y @ r5))"
    by (auto simp: in_group_m in_re_Y)
  from 1 2 3 4 5 show "(d, m, y, r5) \<in> set (format_regex_matches s)"
    by (rule in_format_regex_matches_I)
qed

lemma isdecimal_cp_not_dot: "isdecimal_cp c \<Longrightarrow> c \<noteq> 46"
  by (auto simp: char_tables)

lemma day_field_split:
  assumes "day_field d" "day_field d'" "d @ 46 # x = d' @ 46 # x'"
  shows "d = d' \<and> x = x'"
  using assms unfolding day_field_iff
  by (auto dest: isdecimal_cp_not_dot)

lemma month_field_split:
  assumes "month_field d" "month_field d'" "d @ 46 # x = d' @ 46 # x'"
  shows "d = d' \<and> x = x'"
  using assms unfolding month_field_iff
  by auto

lemma year_field_split:
  assumes "year_field y" "year_field y'" "y @ x = y' @ x'"
  shows "y = y' \<and> x = x'"
  using assms by (simp add: year_field_def)

lemma format_regex_matches_unique:
  assumes "(d, m, y, r) \<in> set (format_regex_matches s)"
    and "(d', m', y', r') \<in> set (format_regex_matches s)"
  shows "d' = d \<and> m' = m \<and> y' = y \<and> r' = r"
proof -
  from assms have a: "s = d @ 46 # m @ 46 # y @ r" "day_field d" "month_field m" "year_field y"
    and b: "s = d' @ 46 # m' @ 46 # y' @ r'" "day_field d'" "month_field m'" "year_field y'"
    by (simp_all add: in_format_regex_matches)
  from a(1) b(1) have e1: "d @ 46 # (m @ 46 # y @ r) = d' @ 46 # (m' @ 46 # y' @ r')" by simp
  from day_field_split [OF a(2) b(2) e1]
  have 1: "d = d'" and e2: "m @ 46 # (y @ r) = m' @ 46 # (y' @ r')" by simp_all
  from month_field_split [OF a(3) b(3) e2]
  have 2: "m = m'" and e3: "y @ r = y' @ r'" by simp_all
  from year_field_split [OF a(4) b(4) e3]
  have 3: "y = y' \<and> r = r'" .
  from 1 2 3 show ?thesis by simp
qed

lemma strptime_dmY_Nil: "format_regex_matches s = [] \<Longrightarrow> strptime_dmY s = None"
  by (simp add: strptime_dmY_def)

lemma strptime_dmY_Cons:
  "format_regex_matches s = (D, M, Y, rest) # ms \<Longrightarrow>
   strptime_dmY s =
     (if rest \<noteq> [] then None
      else (case int_of_token Y of
              None \<Rightarrow> None
            | Some y \<Rightarrow>
                (case int_of_token M of
                   None \<Rightarrow> None
                 | Some m \<Rightarrow>
                     (case int_of_token D of
                        None \<Rightarrow> None
                      | Some d \<Rightarrow> (case date_new y m d of Inl e \<Rightarrow> None | Inr dt \<Rightarrow> Some dt)))))"
  by (simp add: strptime_dmY_def split: option.split)

text \<open>What \<^verbatim>\<open>strptime\<close> accepts, and what it returns.\<close>

lemma strptime_dmY_Some_iff:
  "(strptime_dmY s = Some dt)
     = (\<exists>D M Y y m d. s = D @ 46 # M @ 46 # Y \<and> day_field D \<and> month_field M \<and> year_field Y
          \<and> int_of_token Y = Some y \<and> int_of_token M = Some m \<and> int_of_token D = Some d
          \<and> date_new y m d = Inr dt)"
proof
  assume a: "strptime_dmY s = Some dt"
  then have "format_regex_matches s \<noteq> []" using strptime_dmY_Nil [of s] by auto
  then obtain x ms where "format_regex_matches s = x # ms"
    by (cases "format_regex_matches s") auto
  then obtain D M Y rest where f: "format_regex_matches s = (D, M, Y, rest) # ms"
    by (cases x) auto
  then have "(D, M, Y, rest) \<in> set (format_regex_matches s)" by simp
  then have sh: "s = D @ 46 # M @ 46 # Y @ rest" "day_field D" "month_field M" "year_field Y"
    by (simp_all add: in_format_regex_matches)
  note c = a [unfolded strptime_dmY_Cons [OF f]]
  from c have r: "rest = []" by (simp split: if_splits)
  from c r obtain y where y: "int_of_token Y = Some y" by (cases "int_of_token Y") auto
  from c r y obtain m where m: "int_of_token M = Some m" by (cases "int_of_token M") auto
  from c r y m obtain d where d: "int_of_token D = Some d" by (cases "int_of_token D") auto
  from c r y m d have dn: "date_new y m d = Inr dt" by (cases "date_new y m d") auto
  from sh r have "s = D @ 46 # M @ 46 # Y" by simp
  with sh(2-4) y m d dn
  show "\<exists>D M Y y m d. s = D @ 46 # M @ 46 # Y \<and> day_field D \<and> month_field M \<and> year_field Y
          \<and> int_of_token Y = Some y \<and> int_of_token M = Some m \<and> int_of_token D = Some d
          \<and> date_new y m d = Inr dt"
    by (intro exI [of _ D] exI [of _ M] exI [of _ Y] exI [of _ y] exI [of _ m] exI [of _ d]) simp
next
  assume "\<exists>D M Y y m d. s = D @ 46 # M @ 46 # Y \<and> day_field D \<and> month_field M \<and> year_field Y
          \<and> int_of_token Y = Some y \<and> int_of_token M = Some m \<and> int_of_token D = Some d
          \<and> date_new y m d = Inr dt"
  then obtain D M Y y m d where sh: "s = D @ 46 # M @ 46 # Y" "day_field D" "month_field M"
      "year_field Y" and v: "int_of_token Y = Some y" "int_of_token M = Some m"
      "int_of_token D = Some d" "date_new y m d = Inr dt"
    by blast
  from sh have mem: "(D, M, Y, []) \<in> set (format_regex_matches s)"
    by (simp add: in_format_regex_matches)
  then obtain x ms where "format_regex_matches s = x # ms"
    by (cases "format_regex_matches s") auto
  then obtain D' M' Y' rest where f: "format_regex_matches s = (D', M', Y', rest) # ms"
    by (cases x) auto
  then have "(D', M', Y', rest) \<in> set (format_regex_matches s)" by simp
  from format_regex_matches_unique [OF mem this]
  have "format_regex_matches s = (D, M, Y, []) # ms" using f by simp
  from strptime_dmY_Cons [OF this] v show "strptime_dmY s = Some dt" by simp
qed


section \<open>Canonical date strings\<close>

lemma ascii_digit_isdecimal_cp: "ascii_digit c \<Longrightarrow> isdecimal_cp c"
  by (simp add: ascii_digit_def isdecimal_cp_def in_ranges_def Nd_ranges_def)

lemma ascii_digit_not_space: "ascii_digit c \<Longrightarrow> \<not> isspace_cp c"
  by (auto simp: ascii_digit_def isspace_cp_def in_ranges_def space_ranges_def)

lemma decimal_value_ascii: "ascii_digit c \<Longrightarrow> decimal_value c = Some (c - 48)"
proof -
  assume a: "ascii_digit c"
  then have "c - 48 < 10" unfolding ascii_digit_def by arith
  then have "(c - 48) mod 10 = c - 48" by simp
  with a show ?thesis by (simp add: ascii_digit_def decimal_value_def Nd_ranges_def)
qed

lemma strip_ascii_digits: "list_all ascii_digit t \<Longrightarrow> strip t = t"
proof -
  assume a: "list_all ascii_digit t"
  have "dropWhile isspace_cp u = u" if "list_all ascii_digit u" for u
    using that by (cases u) (auto simp: ascii_digit_not_space)
  moreover from a have "list_all ascii_digit (rev t)" by (simp add: list_all_iff)
  ultimately show ?thesis using a by (simp add: strip_def)
qed

lemma digits_value_ascii:
  "list_all ascii_digit t \<Longrightarrow>
   map_option int (digits_value acc t) = Some (foldl (\<lambda>a c. 10 * a + (int c - 48)) (int acc) t)"
proof (induction t arbitrary: acc)
  case Nil
  then show ?case by simp
next
  case (Cons c t)
  then have c: "ascii_digit c" and t: "list_all ascii_digit t" by simp_all
  let ?f = "\<lambda>a c. 10 * a + (int c - 48)"
  from c have i: "int (10 * acc + (c - 48)) = 10 * int acc + (int c - 48)"
    by (simp add: ascii_digit_def)
  have 1: "digits_value acc (c # t) = digits_value (10 * acc + (c - 48)) t"
    using c by (simp add: decimal_value_ascii)
  have 2: "foldl ?f (int acc) (c # t) = foldl ?f (10 * int acc + (int c - 48)) t" by simp
  from Cons.IH [OF t, of "10 * acc + (c - 48)"]
  show ?case unfolding 1 2 i .
qed

lemma int_of_token_ascii:
  "list_all ascii_digit t \<Longrightarrow> t \<noteq> [] \<Longrightarrow> int_of_token t = Some (ascii_number t)"
  using digits_value_ascii [of t 0]
  by (cases t) (simp_all add: int_of_token_def strip_ascii_digits ascii_number_def)

lemma str_nat_digit: "d < 10 \<Longrightarrow> str_nat d = [48 + d]"
  by (simp add: str_nat.simps [of d])

lemma str_nat_step: "d < 10 \<Longrightarrow> 0 < n \<Longrightarrow> str_nat (10 * n + d) = str_nat n @ [48 + d]"
  by (simp add: str_nat.simps [of "10 * n + d"])

lemma render2: "a < 10 \<Longrightarrow> b < 10 \<Longrightarrow> zero_pad 2 (str_nat (10 * a + b)) = [48 + a, 48 + b]"
  by (cases "a = 0") (simp_all add: str_nat_digit str_nat_step zero_pad_def)

lemma str_nat2:
  assumes "a < 10" "b < 10" "0 < a"
  shows "str_nat (10 * a + b) = [48 + a, 48 + b]"
  using str_nat_step [of b a] str_nat_digit [of a] assms by simp

lemma str_nat3:
  assumes "a < 10" "b < 10" "c < 10" "0 < a"
  shows "str_nat (10 * (10 * a + b) + c) = [48 + a, 48 + b, 48 + c]"
  using str_nat_step [of c "10 * a + b"] str_nat2 [of a b] assms by simp

lemma str_nat4:
  assumes "a < 10" "b < 10" "c < 10" "d < 10" "0 < a"
  shows "str_nat (10 * (10 * (10 * a + b) + c) + d) = [48 + a, 48 + b, 48 + c, 48 + d]"
  using str_nat_step [of d "10 * (10 * a + b) + c"] str_nat3 [of a b c] assms by simp

lemma render4:
  assumes "a < 10" "b < 10" "c < 10" "d < 10"
  shows "zero_pad 4 (str_nat (10 * (10 * (10 * a + b) + c) + d)) = [48 + a, 48 + b, 48 + c, 48 + d]"
proof (cases "a = 0")
  case False
  with assms str_nat4 [of a b c d] show ?thesis by (simp add: zero_pad_def)
next
  case a: True
  show ?thesis
  proof (cases "b = 0")
    case False
    with a assms str_nat3 [of b c d] show ?thesis by (simp add: zero_pad_def)
  next
    case b: True
    show ?thesis
    proof (cases "c = 0")
      case False
      with a b assms str_nat2 [of c d] show ?thesis
        by (simp add: zero_pad_def numeral_2_eq_2)
    next
      case True
      with a b assms show ?thesis
        by (simp add: str_nat_digit zero_pad_def numeral_3_eq_3)
    qed
  qed
qed

lemma days_in_month_le_31: "1 \<le> m \<Longrightarrow> m \<le> 12 \<Longrightarrow> days_in_month y m \<le> 31"
proof -
  assume "1 \<le> m" "m \<le> 12"
  then have "m = 1 \<or> m = 2 \<or> m = 3 \<or> m = 4 \<or> m = 5 \<or> m = 6 \<or> m = 7 \<or> m = 8 \<or> m = 9
      \<or> m = 10 \<or> m = 11 \<or> m = 12" by arith
  then show ?thesis
    by (elim disjE) (simp_all add: days_in_month_def DAYS_IN_MONTH_def)
qed

lemma length_10_cases:
  assumes "length s = 10"
  obtains a b c d e f g h i j where "s = [a, b, c, d, e, f, g, h, i, j]"
  using assms by (auto simp: length_Suc_conv eval_nat_numeral)


lemma ascii_digit_iff: "ascii_digit c = (\<exists>a<10. c = 48 + a)"
  unfolding ascii_digit_def by presburger

lemma ascii_digit_add [simp]: "a < 10 \<Longrightarrow> ascii_digit (48 + a)"
  by (simp add: ascii_digit_def)

lemma ascii_number2: "ascii_number [48 + a, 48 + b] = int (10 * a + b)"
  by (simp add: ascii_number_def)

lemma ascii_number4:
  "ascii_number [48 + a, 48 + b, 48 + c, 48 + d] = int (10 * (10 * (10 * a + b) + c) + d)"
  by (simp add: ascii_number_def)

lemma str_int_nat: "str_int (int n) = str_nat n"
  by (simp add: str_int_def)

lemma day_field_ascii:
  fixes a b :: nat
  assumes "a < 10" "b < 10" "1 \<le> 10 * a + b" "10 * a + b \<le> 31"
  shows "day_field [48 + a, 48 + b]"
proof -
  have "isdecimal_cp (48 + b)" using assms(2) by (intro ascii_digit_isdecimal_cp) simp
  moreover from assms have "(a = 3 \<and> b \<le> 1) \<or> (1 \<le> a \<and> a \<le> 2) \<or> (a = 0 \<and> 1 \<le> b)"
    by arith
  ultimately show ?thesis using assms(1,2) by auto
qed

lemma month_field_ascii:
  fixes a b :: nat
  assumes "a < 10" "b < 10" "1 \<le> 10 * a + b" "10 * a + b \<le> 12"
  shows "month_field [48 + a, 48 + b]"
proof -
  from assms have "(a = 1 \<and> b \<le> 2) \<or> (a = 0 \<and> 1 \<le> b)" by arith
  then show ?thesis using assms(1,2) by auto
qed


lemma list10_parts:
  "take 2 [a, b, c, d, e, f, g, h, i, j] = [a, b]"
  "take 2 (drop 3 [a, b, c, d, e, f, g, h, i, j]) = [d, e]"
  "drop 6 [a, b, c, d, e, f, g, h, i, j] = [g, h, i, j]"
  by simp_all

lemma canonical_date_string_cases:
  assumes "canonical_date_string s"
  obtains a1 a2 b1 b2 c1 c2 c3 c4 :: nat where
    "s = [48 + a1, 48 + a2, 46, 48 + b1, 48 + b2, 46, 48 + c1, 48 + c2, 48 + c3, 48 + c4]"
    "a1 < 10" "a2 < 10" "b1 < 10" "b2 < 10" "c1 < 10" "c2 < 10" "c3 < 10" "c4 < 10"
    "canonical_date s = \<lparr>year = int (10 * (10 * (10 * c1 + c2) + c3) + c4),
        month = int (10 * b1 + b2), day = int (10 * a1 + a2)\<rparr>"
    "real_date (int (10 * (10 * (10 * c1 + c2) + c3) + c4)) (int (10 * b1 + b2))
        (int (10 * a1 + a2))"
proof -
  from assms have "length s = 10" by (simp add: canonical_date_string_def)
  then obtain a b c d e f g h i j where s: "s = [a, b, c, d, e, f, g, h, i, j]"
    by (rule length_10_cases)
  from assms have dots: "c = 46" "f = 46"
    unfolding s canonical_date_string_def by simp_all
  from assms have "ascii_digit a" "ascii_digit b" "ascii_digit d" "ascii_digit e"
    "ascii_digit g" "ascii_digit h" "ascii_digit i" "ascii_digit j"
    unfolding s canonical_date_string_def by simp_all
  then obtain a1 a2 b1 b2 c1 c2 c3 c4 where
    v: "a = 48 + a1" "b = 48 + a2" "d = 48 + b1" "e = 48 + b2"
       "g = 48 + c1" "h = 48 + c2" "i = 48 + c3" "j = 48 + c4"
    and lt: "a1 < 10" "a2 < 10" "b1 < 10" "b2 < 10" "c1 < 10" "c2 < 10" "c3 < 10" "c4 < 10"
    unfolding ascii_digit_iff by blast
  have cd: "canonical_date s = \<lparr>year = int (10 * (10 * (10 * c1 + c2) + c3) + c4),
        month = int (10 * b1 + b2), day = int (10 * a1 + a2)\<rparr>"
    unfolding canonical_date_def s list10_parts v ascii_number2 ascii_number4 by (rule refl)
  from assms have "real_date (year (canonical_date s)) (month (canonical_date s))
      (day (canonical_date s))"
    by (simp add: canonical_date_string_def)
  then have rd: "real_date (int (10 * (10 * (10 * c1 + c2) + c3) + c4)) (int (10 * b1 + b2))
        (int (10 * a1 + a2))"
    unfolding cd by (simp only: date.simps)
  from s v dots have se: "s = [48 + a1, 48 + a2, 46, 48 + b1, 48 + b2, 46, 48 + c1, 48 + c2,
      48 + c3, 48 + c4]" by simp
  from se lt cd rd show ?thesis by (rule that)
qed


lemma canonical_parse:
  assumes "canonical_date_string s"
  shows "strptime_dmY s = Some (canonical_date s)"
proof -
  from assms obtain a1 a2 b1 b2 c1 c2 c3 c4 :: nat where
    s: "s = [48 + a1, 48 + a2, 46, 48 + b1, 48 + b2, 46, 48 + c1, 48 + c2, 48 + c3, 48 + c4]"
    and lt: "a1 < 10" "a2 < 10" "b1 < 10" "b2 < 10" "c1 < 10" "c2 < 10" "c3 < 10" "c4 < 10"
    and cd: "canonical_date s = \<lparr>year = int (10 * (10 * (10 * c1 + c2) + c3) + c4),
        month = int (10 * b1 + b2), day = int (10 * a1 + a2)\<rparr>"
    and rd: "real_date (int (10 * (10 * (10 * c1 + c2) + c3) + c4)) (int (10 * b1 + b2))
        (int (10 * a1 + a2))"
    by (rule canonical_date_string_cases)
  let ?D = "[48 + a1, 48 + a2]" and ?M = "[48 + b1, 48 + b2]"
    and ?Y = "[48 + c1, 48 + c2, 48 + c3, 48 + c4]"
  let ?y = "int (10 * (10 * (10 * c1 + c2) + c3) + c4)" and ?m = "int (10 * b1 + b2)"
    and ?d = "int (10 * a1 + a2)"
  from rd have m: "1 \<le> ?m" "?m \<le> 12" and d: "1 \<le> ?d" "?d \<le> days_in_month ?y ?m"
    unfolding real_date_def by blast+
  from d(2) days_in_month_le_31 [OF m, of ?y] have d31: "?d \<le> 31" by linarith
  have 1: "s = ?D @ 46 # ?M @ 46 # ?Y" by (simp add: s)
  have 2: "day_field ?D" using lt(1,2) d(1) d31 by (intro day_field_ascii) linarith+
  have 3: "month_field ?M" using lt(3,4) m by (intro month_field_ascii) linarith+
  have 4: "year_field ?Y" using lt by (simp add: year_field_def ascii_digit_isdecimal_cp)
  have 5: "int_of_token ?Y = Some ?y"
    using int_of_token_ascii [of ?Y] lt unfolding ascii_number4 by simp
  have 6: "int_of_token ?M = Some ?m"
    using int_of_token_ascii [of ?M] lt unfolding ascii_number2 by simp
  have 7: "int_of_token ?D = Some ?d"
    using int_of_token_ascii [of ?D] lt unfolding ascii_number2 by simp
  have 8: "date_new ?y ?m ?d = Inr (canonical_date s)"
    using rd unfolding date_new_def real_date_def cd by (simp only: if_True if_False not_True_eq_False simp_thms)
  from 1 2 3 4 5 6 7 8 show ?thesis
    unfolding strptime_dmY_Some_iff by blast
qed


lemma thousand_lead:
  fixes a b c d :: nat
  shows "1000 \<le> 10 * (10 * (10 * a + b) + c) + d \<Longrightarrow> b < 10 \<Longrightarrow> c < 10 \<Longrightarrow> d < 10 \<Longrightarrow> 0 < a"
proof (cases "a = 0")
  case True
  assume "1000 \<le> 10 * (10 * (10 * a + b) + c) + d" "b < 10" "c < 10" "d < 10"
  with True have "1000 \<le> 100 * b + 10 * c + d" "b \<le> 9" "c \<le> 9" "d \<le> 9" by simp_all
  then show ?thesis by linarith
next
  case False
  then show ?thesis by simp
qed

lemma canonical_render:
  assumes "canonical_date_string s" and "pad_year \<or> 1000 \<le> year (canonical_date s)"
  shows "strftime_dmY pad_year (canonical_date s) = s"
proof -
  from assms(1) obtain a1 a2 b1 b2 c1 c2 c3 c4 :: nat where
    s: "s = [48 + a1, 48 + a2, 46, 48 + b1, 48 + b2, 46, 48 + c1, 48 + c2, 48 + c3, 48 + c4]"
    and lt: "a1 < 10" "a2 < 10" "b1 < 10" "b2 < 10" "c1 < 10" "c2 < 10" "c3 < 10" "c4 < 10"
    and cd: "canonical_date s = \<lparr>year = int (10 * (10 * (10 * c1 + c2) + c3) + c4),
        month = int (10 * b1 + b2), day = int (10 * a1 + a2)\<rparr>"
    by (rule canonical_date_string_cases)
  have fd: "fmt_d (canonical_date s) = [48 + a1, 48 + a2]"
    unfolding fmt_d_def cd date.simps str_int_nat using lt(1,2) by (rule render2)
  have fm: "fmt_m (canonical_date s) = [48 + b1, 48 + b2]"
    unfolding fmt_m_def cd date.simps str_int_nat using lt(3,4) by (rule render2)
  have fy: "fmt_Y pad_year (canonical_date s) = [48 + c1, 48 + c2, 48 + c3, 48 + c4]"
  proof (cases pad_year)
    case True
    have "zero_pad 4 (str_nat (10 * (10 * (10 * c1 + c2) + c3) + c4))
        = [48 + c1, 48 + c2, 48 + c3, 48 + c4]"
      using lt(5-8) by (rule render4)
    with True show ?thesis unfolding fmt_Y_def cd date.simps str_int_nat by (simp only: if_True)
  next
    case False
    with assms(2) have "1000 \<le> year (canonical_date s)" by simp
    then have "int 1000 \<le> int (10 * (10 * (10 * c1 + c2) + c3) + c4)"
      unfolding cd date.simps by simp
    then have "1000 \<le> 10 * (10 * (10 * c1 + c2) + c3) + c4" by (simp only: of_nat_le_iff)
    then have "0 < c1" using lt(6-8) by (rule thousand_lead)
    with lt(5-8) have "str_nat (10 * (10 * (10 * c1 + c2) + c3) + c4)
        = [48 + c1, 48 + c2, 48 + c3, 48 + c4]"
      by (rule str_nat4)
    with False show ?thesis unfolding fmt_Y_def cd date.simps str_int_nat by (simp only: if_False)
  qed
  have "strftime_dmY pad_year (canonical_date s)
      = [48 + a1, 48 + a2, 46, 48 + b1, 48 + b2, 46, 48 + c1, 48 + c2, 48 + c3, 48 + c4]"
    unfolding strftime_dmY_def fd fm fy by simp
  then show ?thesis unfolding s [symmetric] .
qed


lemma date_new_iff:
  "(date_new y m d = Inr dt) = (real_date y m d \<and> dt = \<lparr>year = y, month = m, day = d\<rparr>)"
  by (auto simp: date_new_def real_date_def)

lemma Birthday_init_Inr_iff: "(Birthday_init s = Inr b) = (strptime_dmY s = Some (birthday_value b))"
  by (cases b) (auto simp: Birthday_init_def Birthday_is_valid_def split: option.splits)

lemma Birthday_init_Inl_iff:
  "(Birthday_init s = Inl e)
     = (strptime_dmY s = None \<and> e = ValueError (py ''Invalid date format. Use DD.MM.YYYY''))"
  by (auto simp: Birthday_init_def Birthday_is_valid_def split: option.splits)

text \<open>
  Claim C5, as the spec states it, has construction fail on every string that is not
  two-digit day, two-digit month and four-digit year. The parser takes a one-digit day
  and month: \<^verbatim>\<open>"1.1.2000"\<close> is accepted. And where the C library does not pad \<^verbatim>\<open>%Y\<close>
  (\<open>pad_year\<close> false), the canonical \<^verbatim>\<open>"01.01.0999"\<close> is accepted and rendered as
  \<^verbatim>\<open>"01.01.999"\<close>.
\<close>

theorem Birthday_init_lenient_counterexample:
  "Birthday_init (py ''1.1.2000'') = Inr (BirthdayObj \<lparr>year = 2000, month = 1, day = 1\<rparr>)
   \<and> \<not> canonical_date_string (py ''1.1.2000'')
   \<and> canonical_date_string (py ''01.01.0999'')
   \<and> Birthday_init (py ''01.01.0999'') = Inr (BirthdayObj \<lparr>year = 999, month = 1, day = 1\<rparr>)
   \<and> strftime_dmY False \<lparr>year = 999, month = 1, day = 1\<rparr> = py ''01.01.999''"
proof -
  have 1: "Birthday_init (py ''1.1.2000'') = Inr (BirthdayObj \<lparr>year = 2000, month = 1, day = 1\<rparr>)"
    by (simp add: Birthday_init_def Birthday_is_valid_def strptime_eval)
  have 2: "\<not> canonical_date_string (py ''1.1.2000'')"
    by (simp add: canonical_date_string_def)
  have 3: "canonical_date_string (py ''01.01.0999'')"
    by (simp add: canonical_date_string_def canonical_date_def ascii_digit_def ascii_number_def
        real_date_def days_in_month_def DAYS_IN_MONTH_def)
  have 4: "Birthday_init (py ''01.01.0999'') = Inr (BirthdayObj \<lparr>year = 999, month = 1, day = 1\<rparr>)"
    by (simp add: Birthday_init_def Birthday_is_valid_def strptime_eval)
  have 5: "strftime_dmY False \<lparr>year = 999, month = 1, day = 1\<rparr> = py ''01.01.999''"
    by (simp add: strftime_dmY_def fmt_d_def fmt_m_def fmt_Y_def zero_pad_def str_int_def
        str_nat.simps)
  from 1 2 3 4 5 show ?thesis by (intro conjI)
qed

text \<open>
  Claim C5, amended: for every canonical DD.MM.YYYY string of a date of the calendar,
  construction succeeds with that date, and rendering it as \<^verbatim>\<open>%d.%m.%Y\<close> gives the
  string back when the year is at least 1000 or the C library pads the year to four
  digits. Construction succeeds exactly on the strings made of a day field, a full
  stop, a month field, a full stop and a year field (one-digit days and months
  included) whose numbers are a date of the calendar; on every other string it fails
  with the invalid-date \<^verbatim>\<open>ValueError\<close>.
\<close>

theorem Birthday_init_spec:
  "(canonical_date_string s
      \<longrightarrow> Birthday_init s = Inr (BirthdayObj (canonical_date s))
          \<and> (pad_year \<or> 1000 \<le> year (canonical_date s)
               \<longrightarrow> strftime_dmY pad_year (canonical_date s) = s))
   \<and> ((Birthday_init s = Inr b)
        = (\<exists>D M Y y m d. s = D @ py ''.'' @ M @ py ''.'' @ Y
             \<and> day_field D \<and> month_field M \<and> year_field Y
             \<and> int_of_token Y = Some y \<and> int_of_token M = Some m \<and> int_of_token D = Some d
             \<and> real_date y m d \<and> birthday_value b = \<lparr>year = y, month = m, day = d\<rparr>))
   \<and> ((\<forall>b. Birthday_init s \<noteq> Inr b)
        = (Birthday_init s = Inl (ValueError (py ''Invalid date format. Use DD.MM.YYYY''))))"
proof -
  have a: "canonical_date_string s
      \<longrightarrow> Birthday_init s = Inr (BirthdayObj (canonical_date s))
          \<and> (pad_year \<or> 1000 \<le> year (canonical_date s)
               \<longrightarrow> strftime_dmY pad_year (canonical_date s) = s)"
    using canonical_parse [of s] canonical_render [of s pad_year]
    by (simp add: Birthday_init_Inr_iff)
  have b: "(Birthday_init s = Inr b)
        = (\<exists>D M Y y m d. s = D @ py ''.'' @ M @ py ''.'' @ Y
             \<and> day_field D \<and> month_field M \<and> year_field Y
             \<and> int_of_token Y = Some y \<and> int_of_token M = Some m \<and> int_of_token D = Some d
             \<and> real_date y m d \<and> birthday_value b = \<lparr>year = y, month = m, day = d\<rparr>)"
    unfolding Birthday_init_Inr_iff strptime_dmY_Some_iff date_new_iff by simp
  have c: "(\<forall>b. Birthday_init s \<noteq> Inr b)
        = (Birthday_init s = Inl (ValueError (py ''Invalid date format. Use DD.MM.YYYY'')))"
    by (cases "strptime_dmY s") (simp_all add: Birthday_init_def Birthday_is_valid_def)
  from a b c show ?thesis by (intro conjI)
qed

text \<open>The theorem at \<^verbatim>\<open>"05.06.1990"\<close>, rendered without year padding.\<close>

theorem Birthday_init_spec_witness:
  "canonical_date_string (py ''05.06.1990'')
   \<and> Birthday_init (py ''05.06.1990'') = Inr (BirthdayObj \<lparr>year = 1990, month = 6, day = 5\<rparr>)
   \<and> strftime_dmY False \<lparr>year = 1990, month = 6, day = 5\<rparr> = py ''05.06.1990''"
proof -
  have c: "canonical_date_string (py ''05.06.1990'')"
    by (simp add: canonical_date_string_def canonical_date_def ascii_digit_def ascii_number_def
        real_date_def days_in_month_def DAYS_IN_MONTH_def)
  have d: "canonical_date (py ''05.06.1990'') = \<lparr>year = 1990, month = 6, day = 5\<rparr>"
    by (simp add: canonical_date_def ascii_number_def)
  from Birthday_init_spec [of "py ''05.06.1990''" False] c
  have "Birthday_init (py ''05.06.1990'') = Inr (BirthdayObj (canonical_date (py ''05.06.1990'')))
      \<and> (False \<or> 1000 \<le> year (canonical_date (py ''05.06.1990''))
           \<longrightarrow> strftime_dmY False (canonical_date (py ''05.06.1990'')) = py ''05.06.1990'')"
    by blast
  then show ?thesis using c unfolding d by simp
qed


section \<open>Upcoming birthdays\<close>

lemma upcoming_loop_raises:
  assumes "r \<in> set rs" "birthday r = Some b"
    "date_replace_year (birthday_value b) (year tdate) = Inl e"
  shows "\<exists>e'. upcoming_loop pad_year tdate rs acc = Inl e'"
  using assms
proof (induction rs arbitrary: acc)
  case Nil
  then show ?case by simp
next
  case (Cons x rs)
  show ?case
  proof (cases "x = r")
    case True
    with Cons.prems show ?thesis by simp
  next
    case False
    with Cons.prems have "r \<in> set rs" by simp
    from Cons.IH [OF this Cons.prems(2,3)] show ?thesis
      by (simp add: Let_def split: option.split sum.split)
  qed
qed

lemma upcoming_loop_window:
  assumes "\<forall>r\<in>set rs. \<forall>b. birthday r = Some b
      \<longrightarrow> (\<exists>d. date_replace_year (birthday_value b) (year tdate) = Inr d)"
  shows "\<exists>res. upcoming_loop pad_year tdate rs acc = Inr res
      \<and> map fst res = map fst acc @ map (\<lambda>r. name_value (name r)) (filter (in_window tdate) rs)"
  using assms
proof (induction rs arbitrary: acc)
  case Nil
  then show ?case by simp
next
  case (Cons x rs)
  then have rest: "\<forall>r\<in>set rs. \<forall>b. birthday r = Some b
      \<longrightarrow> (\<exists>d. date_replace_year (birthday_value b) (year tdate) = Inr d)" by simp
  show ?case
  proof (cases "birthday x")
    case None
    then have w: "\<not> in_window tdate x" by (simp add: in_window_def this_year_birthday_def)
    have "upcoming_loop pad_year tdate (x # rs) acc = upcoming_loop pad_year tdate rs acc"
      using None by simp
    with Cons.IH [OF rest, of acc] w show ?thesis by simp
  next
    case (Some b)
    with Cons.prems obtain d where d: "date_replace_year (birthday_value b) (year tdate) = Inr d"
      by auto
    have w: "in_window tdate x = (0 \<le> date_sub_days d tdate \<and> date_sub_days d tdate \<le> 7)"
      using Some d by (simp add: in_window_def this_year_birthday_def)
    have step: "upcoming_loop pad_year tdate (x # rs) acc =
        (if in_window tdate x
         then upcoming_loop pad_year tdate rs
                (acc @ [(name_value (name x), strftime_A_dmY pad_year d)])
         else upcoming_loop pad_year tdate rs acc)"
      using Some d by (simp add: Let_def w)
    show ?thesis
    proof (cases "in_window tdate x")
      case True
      with Cons.IH [OF rest, of "acc @ [(name_value (name x), strftime_A_dmY pad_year d)]"]
      show ?thesis unfolding step by simp
    next
      case False
      with Cons.IH [OF rest, of acc] show ?thesis unfolding step by simp
    qed
  qed
qed

lemma get_upcoming_birthdays_window:
  assumes "\<forall>r\<in>set (map snd book). \<forall>b. birthday r = Some b
      \<longrightarrow> (\<exists>d. date_replace_year (birthday_value b) (year tdate) = Inr d)"
  shows "\<exists>res. get_upcoming_birthdays pad_year tdate book = Inr res
      \<and> map fst res = map (\<lambda>r. name_value (name r)) (filter (in_window tdate) (map snd book))"
  using upcoming_loop_window [OF assms, of pad_year "[]"] by (simp add: get_upcoming_birthdays_def)

text \<open>
  The examples of the specification, today 2024-06-01: a birthday on 5 June is
  reported (four days ahead), 10 June and 30 May are not, nor is a record without
  birthday.
\<close>

lemma get_upcoming_birthdays_examples:
  "get_upcoming_birthdays False \<lparr>year = 2024, month = 6, day = 1\<rparr>
     [(py ''Ann'', \<lparr>name = NameObj (py ''Ann''), phones = [],
         birthday = Some (BirthdayObj \<lparr>year = 1990, month = 6, day = 5\<rparr>)\<rparr>),
      (py ''Bob'', \<lparr>name = NameObj (py ''Bob''), phones = [],
         birthday = Some (BirthdayObj \<lparr>year = 1990, month = 6, day = 10\<rparr>)\<rparr>),
      (py ''Cid'', \<lparr>name = NameObj (py ''Cid''), phones = [],
         birthday = Some (BirthdayObj \<lparr>year = 1990, month = 5, day = 30\<rparr>)\<rparr>),
      (py ''Dov'', \<lparr>name = NameObj (py ''Dov''), phones = [], birthday = None\<rparr>)]
   = Inr [(py ''Ann'', py ''Wednesday, 05.06.2024'')]"
  by (simp add: get_upcoming_birthdays_def date_eval Let_def strftime_A_dmY_def strftime_dmY_def
      fmt_A_def fmt_d_def fmt_m_def fmt_Y_def weekday_def day_names_def zero_pad_def str_int_def
      str_nat.simps)

text \<open>
  Claim C1 gives the result of the query for every book and every date: the records
  whose birthday, moved into today's year, lies zero to seven days ahead. The lemmas
  above show the loop does so whenever every birthday can be moved into today's year.
  A birthday on 29 February cannot be moved into a year that is not leap: with today
  2023-02-25 and a book holding Ann (born 29.02.2000, a date the constructor accepts)
  and Bob (born 01.03.1990, four days ahead, inside the window), \<^verbatim>\<open>replace\<close> raises on
  Ann and the query raises instead of reporting Bob.
\<close>

theorem get_upcoming_birthdays_leap_day_raises:
  "Birthday_init (py ''29.02.2000'') = Inr (BirthdayObj \<lparr>year = 2000, month = 2, day = 29\<rparr>)
   \<and> get_upcoming_birthdays pad_year \<lparr>year = 2023, month = 2, day = 25\<rparr>
        [(py ''Ann'', \<lparr>name = NameObj (py ''Ann''), phones = [],
            birthday = Some (BirthdayObj \<lparr>year = 2000, month = 2, day = 29\<rparr>)\<rparr>),
         (py ''Bob'', \<lparr>name = NameObj (py ''Bob''), phones = [],
            birthday = Some (BirthdayObj \<lparr>year = 1990, month = 3, day = 1\<rparr>)\<rparr>)]
      = Inl (ValueError (py ''day is out of range for month''))
   \<and> in_window \<lparr>year = 2023, month = 2, day = 25\<rparr>
        \<lparr>name = NameObj (py ''Bob''), phones = [],
         birthday = Some (BirthdayObj \<lparr>year = 1990, month = 3, day = 1\<rparr>)\<rparr>
   \<and> \<not> in_window \<lparr>year = 2023, month = 2, day = 25\<rparr>
        \<lparr>name = NameObj (py ''Ann''), phones = [],
         birthday = Some (BirthdayObj \<lparr>year = 2000, month = 2, day = 29\<rparr>)\<rparr>"
proof -
  have 1: "Birthday_init (py ''29.02.2000'')
      = Inr (BirthdayObj \<lparr>year = 2000, month = 2, day = 29\<rparr>)"
    by (simp add: Birthday_init_def Birthday_is_valid_def strptime_eval)
  have 2: "get_upcoming_birthdays pad_year \<lparr>year = 2023, month = 2, day = 25\<rparr>
        [(py ''Ann'', \<lparr>name = NameObj (py ''Ann''), phones = [],
            birthday = Some (BirthdayObj \<lparr>year = 2000, month = 2, day = 29\<rparr>)\<rparr>),
         (py ''Bob'', \<lparr>name = NameObj (py ''Bob''), phones = [],
            birthday = Some (BirthdayObj \<lparr>year = 1990, month = 3, day = 1\<rparr>)\<rparr>)]
      = Inl (ValueError (py ''day is out of range for month''))"
    by (simp add: get_upcoming_birthdays_def date_eval)
  have 3: "in_window \<lparr>year = 2023, month = 2, day = 25\<rparr>
        \<lparr>name = NameObj (py ''Bob''), phones = [],
         birthday = Some (BirthdayObj \<lparr>year = 1990, month = 3, day = 1\<rparr>)\<rparr>"
    by (simp add: in_window_def this_year_birthday_def date_eval)
  have 4: "\<not> in_window \<lparr>year = 2023, month = 2, day = 25\<rparr>
        \<lparr>name = NameObj (py ''Ann''), phones = [],
         birthday = Some (BirthdayObj \<lparr>year = 2000, month = 2, day = 29\<rparr>)\<rparr>"
    by (simp add: in_window_def this_year_birthday_def date_eval)
  from 1 2 3 4 show ?thesis by (intro conjI)
qed

section \<open>Rendering a book\<close>

text \<open>
  The end-to-end example of the specification: a record Alice with one phone and the
  birthday 15.03.1990, built by the core operations and added to the empty book,
  renders as one line.
\<close>

lemma AddressBook_str_example:
  "Record_init (py ''Alice'')
     = Inr \<lparr>name = NameObj (py ''Alice''), phones = [], birthday = None\<rparr>
   \<and> add_phone (py ''1112223333'') \<lparr>name = NameObj (py ''Alice''), phones = [], birthday = None\<rparr>
     = (Inr (), \<lparr>name = NameObj (py ''Alice''), phones = [PhoneObj (py ''1112223333'')],
          birthday = None\<rparr>)
   \<and> add_birthday (py ''15.03.1990'')
        \<lparr>name = NameObj (py ''Alice''), phones = [PhoneObj (py ''1112223333'')], birthday = None\<rparr>
     = (Inr (py ''Birthday added.''),
        \<lparr>name = NameObj (py ''Alice''), phones = [PhoneObj (py ''1112223333'')],
         birthday = Some (BirthdayObj \<lparr>year = 1990, month = 3, day = 15\<rparr>)\<rparr>)
   \<and> AddressBook_str False
        (add_record \<lparr>name = NameObj (py ''Alice''), phones = [PhoneObj (py ''1112223333'')],
           birthday = Some (BirthdayObj \<lparr>year = 1990, month = 3, day = 15\<rparr>)\<rparr> [])
     = py ''Contact name: Alice, phones: 1112223333, birthday: 15.03.1990''"
proof -
  have 1: "Record_init (py ''Alice'')
      = Inr \<lparr>name = NameObj (py ''Alice''), phones = [], birthday = None\<rparr>"
    by (simp add: Record_init_def Name_init_def Name_is_valid_def truthy_str_def strip_def
        char_tables)
  have 2: "add_phone (py ''1112223333'')
        \<lparr>name = NameObj (py ''Alice''), phones = [], birthday = None\<rparr>
      = (Inr (), \<lparr>name = NameObj (py ''Alice''), phones = [PhoneObj (py ''1112223333'')],
          birthday = None\<rparr>)"
    by (simp add: add_phone_def Phone_init_def Phone_is_valid_def isdigit_def char_tables)
  have 3: "add_birthday (py ''15.03.1990'')
        \<lparr>name = NameObj (py ''Alice''), phones = [PhoneObj (py ''1112223333'')], birthday = None\<rparr>
      = (Inr (py ''Birthday added.''),
         \<lparr>name = NameObj (py ''Alice''), phones = [PhoneObj (py ''1112223333'')],
          birthday = Some (BirthdayObj \<lparr>year = 1990, month = 3, day = 15\<rparr>)\<rparr>)"
    by (simp add: add_birthday_def Birthday_init_def Birthday_is_valid_def strptime_eval)
  have 4: "AddressBook_str False
        (add_record \<lparr>name = NameObj (py ''Alice''), phones = [PhoneObj (py ''1112223333'')],
           birthday = Some (BirthdayObj \<lparr>year = 1990, month = 3, day = 15\<rparr>)\<rparr> [])
      = py ''Contact name: Alice, phones: 1112223333, birthday: 15.03.1990''"
    by (simp add: AddressBook_str_def add_record_def Record_str_def strftime_dmY_def fmt_d_def
        fmt_m_def fmt_Y_def zero_pad_def str_int_def str_nat.simps strip_def char_tables)
  from 1 2 3 4 show ?thesis by (intro conjI)
qed

end
